theory Spec2Isabelle
  imports Complex_Main
begin

section \<open>The links table\<close>

text \<open>
  The backend keeps one PostgreSQL table. The columns that the server's statements name
  are those of the SQL script next to the server:
  \<^verbatim>\<open>short_code VARCHAR(8) NOT NULL UNIQUE, target_url TEXT NOT NULL,
  total_clicks INTEGER NOT NULL DEFAULT 0, last_clicked_time TIMESTAMP NULL\<close>
  (the script under \<^verbatim>\<open>sql/\<close> gives the code and the counter the same types).
  A row is a record, the table is the list of its rows in insertion order, and a
  timestamp is a number of clock ticks. A string is the list of the bytes of its UTF-8
  form, which is what the database receives. The database is taken to be reachable: a
  statement fails only for a reason that lies in its parameters or in the data.
\<close>

record link =
  short_code :: string
  target_url :: string
  total_clicks :: int
  last_clicked_time :: "nat option"

type_synonym store = "link list"

datatype db_error =
  UniqueViolation | NumericValueOutOfRange | StringDataRightTruncation | CharacterNotInRepertoire

text \<open>The largest value of an \<^verbatim>\<open>INTEGER\<close> column (four bytes, signed).\<close>

definition INT4_MAX :: int where
  "INT4_MAX = 2147483647"

text \<open>
  A text parameter must not contain the zero byte: the server rejects the statement
  (\<^verbatim>\<open>invalid byte sequence for encoding "UTF8": 0x00\<close>) before it runs.
\<close>

definition pg_text :: "string \<Rightarrow> bool" where
  "pg_text s = list_all (\<lambda>ch. ch \<noteq> CHR 0x00) s"

text \<open>
  Assignment to a \<^verbatim>\<open>VARCHAR(8)\<close> column: a longer string is an error, unless
  everything beyond the eighth character is a space, which is cut off.
\<close>

definition varchar8 :: "string \<Rightarrow> db_error + string" where
  "varchar8 s =
     (if length s \<le> 8 then Inr s
      else if list_all (\<lambda>c. c = CHR '' '') (drop 8 s) then Inr (take 8 s)
      else Inl StringDataRightTruncation)"

text \<open>Whether some row of the table has the code.\<close>

definition has_code :: "store \<Rightarrow> string \<Rightarrow> bool" where
  "has_code st c = list_ex (\<lambda>r. short_code r = c) st"

text \<open>
  \<^verbatim>\<open>SELECT ... FROM links WHERE short_code = $1 LIMIT 1\<close>: the rows returned, or the
  error raised.
\<close>

definition select_by_code :: "store \<Rightarrow> string \<Rightarrow> db_error + link list" where
  "select_by_code st c =
     (if pg_text c then Inr (take 1 (filter (\<lambda>r. short_code r = c) st))
      else Inl CharacterNotInRepertoire)"

text \<open>\<^verbatim>\<open>SELECT short_code, target_url, total_clicks, last_clicked_time FROM links\<close>.\<close>

definition select_all :: "store \<Rightarrow> link list" where
  "select_all st = st"

text \<open>\<^verbatim>\<open>SELECT COUNT(*) as count FROM links\<close>.\<close>

definition count_links :: "store \<Rightarrow> nat" where
  "count_links st = length st"

text \<open>
  \<^verbatim>\<open>INSERT INTO links (...) VALUES ($1, $2, 0, NULL) RETURNING ...\<close>: the new table
  and the row returned, or the error raised. The \<^verbatim>\<open>UNIQUE\<close> constraint on
  \<^verbatim>\<open>short_code\<close> is checked by the statement itself.
\<close>

definition insert_link :: "store \<Rightarrow> string \<Rightarrow> string \<Rightarrow> db_error + (store \<times> link)" where
  "insert_link st c u =
     (if \<not> pg_text c \<or> \<not> pg_text u then Inl CharacterNotInRepertoire
      else case varchar8 c of
        Inl e \<Rightarrow> Inl e
      | Inr c' \<Rightarrow>
          if list_ex (\<lambda>r. short_code r = c') st then Inl UniqueViolation
          else (let row = \<lparr>short_code = c', target_url = u, total_clicks = 0,
                           last_clicked_time = None\<rparr>
                in Inr (st @ [row], row)))"

text \<open>
  \<^verbatim>\<open>UPDATE links SET total_clicks = total_clicks + 1, last_clicked_time = now()
  WHERE short_code = $1\<close>: one statement, which either updates every matching row or,
  when the sum leaves the range of \<^verbatim>\<open>INTEGER\<close>, raises and changes nothing.
\<close>

definition click :: "nat \<Rightarrow> link \<Rightarrow> link" where
  "click now r = r\<lparr>total_clicks := total_clicks r + 1, last_clicked_time := Some now\<rparr>"

definition update_clicks :: "store \<Rightarrow> nat \<Rightarrow> string \<Rightarrow> db_error + store" where
  "update_clicks st now c =
     (if \<not> pg_text c then Inl CharacterNotInRepertoire
      else if list_ex (\<lambda>r. short_code r = c \<and> total_clicks r + 1 > INT4_MAX) st
      then Inl NumericValueOutOfRange
      else Inr (map (\<lambda>r. if short_code r = c then click now r else r) st))"

text \<open>
  \<^verbatim>\<open>DELETE FROM links WHERE short_code = $1 RETURNING short_code\<close>: the new table
  and the number of rows deleted (\<^verbatim>\<open>rowCount\<close>), or the error raised.
\<close>

definition delete_by_code :: "store \<Rightarrow> string \<Rightarrow> db_error + (store \<times> nat)" where
  "delete_by_code st c =
     (if pg_text c
      then Inr (filter (\<lambda>r. short_code r \<noteq> c) st,
                length (filter (\<lambda>r. short_code r = c) st))
      else Inl CharacterNotInRepertoire)"

section \<open>Responses\<close>

record health_info =
  health_status :: string
  version :: string
  uptime_seconds :: real
  uptime_formatted :: string
  total_links :: nat
  server_platform :: string
  server_pid :: nat
  timestamp :: nat

datatype payload =
    JsonError string
  | JsonCreated link string
  | JsonLink link
  | JsonLinks "link list"
  | JsonHealth health_info
  | PlainText string
  | Location string
  | NoContent
  | FrameworkNotFound

record response =
  status :: nat
  body :: payload

text \<open>
  The last middleware: whatever a handler passes to \<^verbatim>\<open>next(err)\<close>, and every error
  that the framework raises while it matches a route, ends here.
\<close>

definition error_handler :: response where
  "error_handler = \<lparr>status = 500, body = JsonError ''Internal server error''\<rparr>"

section \<open>Numbers\<close>

text \<open>
  The numbers of the server are IEEE 754 doubles. A product of two doubles is the real
  product rounded to the nearest double, ties to the even significand: \<open>fl\<close> is that
  rounding, for the reals below \<open>2^1024\<close> in absolute value. \<open>binade x\<close> is the exponent
  \<open>e\<close> with \<open>2^e \<le> x < 2^(e+1)\<close>; the doubles near \<open>x\<close> are the multiples of
  \<open>2^(e - 52)\<close>, and of \<open>2^(-1074)\<close> at the bottom of the range.
\<close>

definition round_half_even :: "real \<Rightarrow> int" where
  "round_half_even y =
     (let f = \<lfloor>y\<rfloor>; d = y - of_int f
      in if d < 1 / 2 then f else if 1 / 2 < d then f + 1 else if even f then f else f + 1)"

function binade :: "real \<Rightarrow> int" where
  "binade x =
     (if x \<le> 0 then 0
      else if 2 \<le> x then binade (x / 2) + 1
      else if x < 1 then binade (2 * x) - 1
      else 0)"
  by pat_completeness auto
termination
proof (relation "measure (\<lambda>x. 2 * nat \<lceil>1 / x\<rceil> + nat \<lfloor>x\<rfloor>)", goal_cases)
  case 1
  show ?case by simp
next
  case (2 x)
  then have x: "2 \<le> x" by simp
  have a: "\<lceil>1 / (x / 2)\<rceil> = 1" using x by (simp add: ceiling_eq_iff)
  have b: "\<lceil>1 / x\<rceil> = 1" using x by (simp add: ceiling_eq_iff)
  have c: "\<lfloor>x / 2\<rfloor> < \<lfloor>x\<rfloor>" using x by (simp add: floor_less_iff) linarith
  have d: "0 \<le> \<lfloor>x / 2\<rfloor>" using x by simp
  show ?case using a b c d x by simp
next
  case (3 x)
  then have x: "0 < x" "x < 1" by simp_all
  have fx: "\<lfloor>x\<rfloor> = 0" using x by (simp add: floor_eq_iff)
  show ?case
  proof (cases "x < 1 / 2")
    case True
    have f2: "\<lfloor>2 * x\<rfloor> = 0" using x True by (simp add: floor_eq_iff)
    define c where "c = \<lceil>1 / x\<rceil>"
    have h: "1 / (2 * x) = (1 / x) / 2" by simp
    have y: "2 < 1 / x" using x True by (simp add: field_simps)
    have le: "1 / x \<le> of_int c" unfolding c_def by (rule le_of_int_ceiling)
    then have "(2::real) < of_int c" using y by linarith
    then have c3: "3 \<le> c" by linarith
    have "(1 / x) / 2 \<le> of_int (c - 1)" using le c3 by simp
    then have "\<lceil>(1 / x) / 2\<rceil> \<le> c - 1" by (rule ceiling_le)
    then have lt: "\<lceil>1 / (2 * x)\<rceil> < \<lceil>1 / x\<rceil>" unfolding h c_def by simp
    have pos: "0 < \<lceil>1 / (2 * x)\<rceil>" using x by simp
    show ?thesis using fx f2 lt pos by simp
  next
    case False
    have f2: "\<lfloor>2 * x\<rfloor> = 1" using x False by (simp add: floor_eq_iff)
    have c1: "\<lceil>1 / (2 * x)\<rceil> = 1" using x False by (simp add: ceiling_eq_iff field_simps)
    have c2: "\<lceil>1 / x\<rceil> = 2" using x False by (simp add: ceiling_eq_iff field_simps)
    show ?thesis using fx f2 c1 c2 by simp
  qed
qed

declare binade.simps [simp del]

definition fl_pos :: "real \<Rightarrow> real" where
  "fl_pos x =
     (let k = max (binade x - 52) (- 1074)
      in 2 powi k * of_int (round_half_even (x / 2 powi k)))"

definition fl :: "real \<Rightarrow> real" where
  "fl x = (if x = 0 then 0 else if 0 < x then fl_pos x else - fl_pos (- x))"

section \<open>Code allocation\<close>

text \<open>\<^verbatim>\<open>/^[A-Za-z0-9]{6,8}$/\<close>, by the character ranges of the class.\<close>

definition alnum :: "char \<Rightarrow> bool" where
  "alnum c =
     (let n = (of_char c :: nat)
      in (65 \<le> n \<and> n \<le> 90) \<or> (97 \<le> n \<and> n \<le> 122) \<or> (48 \<le> n \<and> n \<le> 57))"

definition CODE_REGEX_test :: "string \<Rightarrow> bool" where
  "CODE_REGEX_test s = (6 \<le> length s \<and> length s \<le> 8 \<and> list_all alnum s)"

definition CHARS :: string where
  "CHARS = ''ABCDEFGHIJKLMNOPQRSTUVWXYZabcdefghijklmnopqrstuvwxyz0123456789''"

text \<open>
  \<^verbatim>\<open>Math.random()\<close> is the platform's: the numbers it returns during a request are
  a parameter \<open>rnd\<close>, the \<open>k\<close>-th call returning \<open>rnd k\<close>. The platform promises a
  double in \<open>[0, 1)\<close>, so at most \<open>1 - 2^(-53)\<close>. \<open>randInt\<close> takes the number drawn:
  \<^verbatim>\<open>Math.floor(Math.random() * n)\<close> is the floor of the rounded product.
\<close>

definition randInt :: "real \<Rightarrow> int \<Rightarrow> int" where
  "randInt r n = \<lfloor>fl (r * of_int n)\<rfloor>"

text \<open>\<^verbatim>\<open>s += t[i]\<close>: beyond the string, the index reads \<^verbatim>\<open>undefined\<close>.\<close>

definition append_at :: "string \<Rightarrow> string \<Rightarrow> int \<Rightarrow> string" where
  "append_at s t i =
     s @ (if 0 \<le> i \<and> i < int (length t) then [t ! nat i] else ''undefined'')"

function genCode_loop :: "(nat \<Rightarrow> real) \<Rightarrow> nat \<Rightarrow> int \<Rightarrow> int \<Rightarrow> string \<Rightarrow> string \<times> nat" where
  "genCode_loop rnd k i len s =
     (if i < len
      then genCode_loop rnd (Suc k) (i + 1) len
             (append_at s CHARS (randInt (rnd k) (int (length CHARS))))
      else (s, k))"
  by pat_completeness auto
termination
  by (relation "measure (\<lambda>(rnd, k, i, len, s). nat (len - i))") auto

declare genCode_loop.simps [simp del]

text \<open>The code generated from draw \<open>k\<close> on, and the number of the next draw.\<close>

definition genCode :: "(nat \<Rightarrow> real) \<Rightarrow> nat \<Rightarrow> string \<times> nat" where
  "genCode rnd k = genCode_loop rnd (Suc k) 0 (6 + \<lfloor>fl (rnd k * 3)\<rfloor>) []"

text \<open>The query of \<open>codeExists\<close> and its \<^verbatim>\<open>rowCount > 0\<close>, or the error raised.\<close>

definition codeExists :: "store \<Rightarrow> string \<Rightarrow> db_error + bool" where
  "codeExists st c =
     (case select_by_code st c of
        Inl e \<Rightarrow> Inl e
      | Inr rows \<Rightarrow> Inr (length rows > 0))"

text \<open>
  The \<^verbatim>\<open>do ... while\<close> of the create handler, entered with \<open>attempts\<close> tries made
  so far: the candidate it leaves in \<^verbatim>\<open>short_code\<close>, the final value of
  \<^verbatim>\<open>attempts\<close> and the number of the next draw, or the error that a query raised.
\<close>

function generate_until_unique ::
  "store \<Rightarrow> (nat \<Rightarrow> real) \<Rightarrow> nat \<Rightarrow> nat \<Rightarrow> db_error + (string \<times> nat \<times> nat)" where
  "generate_until_unique st rnd k attempts =
     (case genCode rnd k of
        (c, k') \<Rightarrow>
          if attempts + 1 > 10 then Inr (c, attempts + 1, k')
          else (case codeExists st c of
                  Inl e \<Rightarrow> Inl e
                | Inr found \<Rightarrow>
                    if found then generate_until_unique st rnd k' (attempts + 1)
                    else Inr (c, attempts + 1, k')))"
  by pat_completeness auto
termination
  by (relation "measure (\<lambda>(st, rnd, k, attempts). 11 - attempts)") auto

declare generate_until_unique.simps [simp del]

section \<open>The create handler\<close>

record create_body =
  longUrl :: "string option"
  customCode :: "string option"

text \<open>
  The fields of the body are strings where they are present. A missing field is
  \<^verbatim>\<open>undefined\<close>; of the strings, only the empty one is falsy.
\<close>

definition truthy :: "string option \<Rightarrow> bool" where
  "truthy v = (case v of None \<Rightarrow> False | Some s \<Rightarrow> s \<noteq> [])"

text \<open>
  The handler in the three stretches between which it waits for the database. Each either
  replies (\<open>Inl\<close>) or goes on. \<open>new_URL\<close> is the platform's URL parser followed by
  \<^verbatim>\<open>toString\<close>, \<open>None\<close> where it throws; \<open>BASE_URL\<close> is read from the environment.
  An error that a statement raises is caught and passed to the error handler.
\<close>

definition create_validate :: "(string \<Rightarrow> string option) \<Rightarrow> create_body \<Rightarrow> response + string" where
  "create_validate new_URL b =
     (case longUrl b of
        None \<Rightarrow> Inl \<lparr>status = 400, body = JsonError ''longUrl is required''\<rparr>
      | Some l \<Rightarrow>
          if l = [] then Inl \<lparr>status = 400, body = JsonError ''longUrl is required''\<rparr>
          else (case new_URL l of
                  None \<Rightarrow> Inl \<lparr>status = 400, body = JsonError ''Invalid URL provided''\<rparr>
                | Some normalizedUrl \<Rightarrow> Inr normalizedUrl))"

definition create_allocate :: "store \<Rightarrow> (nat \<Rightarrow> real) \<Rightarrow> string option \<Rightarrow> response + string" where
  "create_allocate st rnd cc =
     (case (if truthy cc then cc else None) of
        Some c \<Rightarrow>
          if \<not> CODE_REGEX_test c
          then Inl \<lparr>status = 400, body = JsonError ''customCode must match [A-Za-z0-9]{6,8}''\<rparr>
          else (case codeExists st c of
                  Inl err \<Rightarrow> Inl error_handler
                | Inr found \<Rightarrow>
                    if found then Inl \<lparr>status = 409, body = JsonError ''Code already exists''\<rparr>
                    else Inr c)
      | None \<Rightarrow>
          (case generate_until_unique st rnd 0 0 of
             Inl err \<Rightarrow> Inl error_handler
           | Inr (c, attempts, k) \<Rightarrow>
               (case codeExists st c of
                  Inl err \<Rightarrow> Inl error_handler
                | Inr found \<Rightarrow>
                    if found
                    then Inl \<lparr>status = 500,
                              body = JsonError ''Failed to generate unique short_code, try again''\<rparr>
                    else Inr c)))"

definition create_insert :: "string \<Rightarrow> store \<Rightarrow> string \<Rightarrow> string \<Rightarrow> store \<times> response" where
  "create_insert BASE_URL st c normalizedUrl =
     (case insert_link st c normalizedUrl of
        Inl err \<Rightarrow> (st, error_handler)
      | Inr (st', row) \<Rightarrow>
          (st', \<lparr>status = 201, body = JsonCreated row (BASE_URL @ ''/'' @ short_code row)\<rparr>))"

text \<open>Everything the handler does before its \<^verbatim>\<open>INSERT\<close>.\<close>

definition create_precheck ::
  "(string \<Rightarrow> string option) \<Rightarrow> (nat \<Rightarrow> real) \<Rightarrow> store \<Rightarrow> create_body \<Rightarrow> response + (string \<times> string)" where
  "create_precheck new_URL rnd st b =
     (case create_validate new_URL b of
        Inl r \<Rightarrow> Inl r
      | Inr normalizedUrl \<Rightarrow>
          (case create_allocate st rnd (customCode b) of
             Inl r \<Rightarrow> Inl r
           | Inr c \<Rightarrow> Inr (c, normalizedUrl)))"

text \<open>
  The handler waits for the database at every existence check and at its
  \<^verbatim>\<open>INSERT\<close>, and other requests are served meanwhile. The model lets them in at
  the last wait, between the final check and the \<^verbatim>\<open>INSERT\<close>: the checks see the
  table \<open>st\<close>, the \<^verbatim>\<open>INSERT\<close> the table \<open>st_later\<close>.
\<close>

definition create_interleaved ::
  "string \<Rightarrow> (string \<Rightarrow> string option) \<Rightarrow> (nat \<Rightarrow> real) \<Rightarrow> store \<Rightarrow> store \<Rightarrow> create_body
     \<Rightarrow> store \<times> response" where
  "create_interleaved BASE_URL new_URL rnd st st_later b =
     (case create_precheck new_URL rnd st b of
        Inl r \<Rightarrow> (st_later, r)
      | Inr (c, normalizedUrl) \<Rightarrow> create_insert BASE_URL st_later c normalizedUrl)"

text \<open>The handler with no other request served in between.\<close>

definition create_link ::
  "string \<Rightarrow> (string \<Rightarrow> string option) \<Rightarrow> (nat \<Rightarrow> real) \<Rightarrow> store \<Rightarrow> create_body \<Rightarrow> store \<times> response" where
  "create_link BASE_URL new_URL rnd st b = create_interleaved BASE_URL new_URL rnd st st b"

section \<open>The other handlers\<close>

text \<open>
  The list, get and delete handlers answer with status 200 unless they set another. An
  error that a statement raises is caught and passed to the error handler.
\<close>

definition list_links :: "store \<Rightarrow> response" where
  "list_links st = \<lparr>status = 200, body = JsonLinks (select_all st)\<rparr>"

definition get_link :: "store \<Rightarrow> string \<Rightarrow> response" where
  "get_link st c =
     (case select_by_code st c of
        Inl err \<Rightarrow> error_handler
      | Inr [] \<Rightarrow> \<lparr>status = 404, body = JsonError ''Not found''\<rparr>
      | Inr (row # _) \<Rightarrow> \<lparr>status = 200, body = JsonLink row\<rparr>)"

definition delete_link :: "store \<Rightarrow> string \<Rightarrow> store \<times> response" where
  "delete_link st c =
     (case delete_by_code st c of
        Inl err \<Rightarrow> (st, error_handler)
      | Inr (st', rowCount) \<Rightarrow>
          if rowCount = 0 then (st', \<lparr>status = 404, body = JsonError ''Not found''\<rparr>)
          else (st', \<lparr>status = 204, body = NoContent\<rparr>))"

text \<open>
  The redirect handler: a lookup, then the update, then the reply. An error of either
  statement is caught and passed to the error handler. \<^verbatim>\<open>res.redirect\<close> sends the
  URL through the framework's \<^verbatim>\<open>encodeUrl\<close>, which is a parameter here.
\<close>

definition redirect :: "(string \<Rightarrow> string) \<Rightarrow> store \<Rightarrow> nat \<Rightarrow> string \<Rightarrow> store \<times> response" where
  "redirect encodeUrl st now c =
     (case select_by_code st c of
        Inl err \<Rightarrow> (st, error_handler)
      | Inr [] \<Rightarrow> (st, \<lparr>status = 404, body = PlainText ''Not found''\<rparr>)
      | Inr (row # _) \<Rightarrow>
          (case update_clicks st now c of
             Inl err \<Rightarrow> (st, error_handler)
           | Inr st' \<Rightarrow>
               (st', \<lparr>status = 302, body = Location (encodeUrl (target_url row))\<rparr>)))"

subsection \<open>Health\<close>

fun show_nat :: "nat \<Rightarrow> string" where
  "show_nat n =
     (if n < 10 then [char_of (48 + n)]
      else show_nat (n div 10) @ [char_of (48 + n mod 10)])"

declare show_nat.simps [simp del]

definition show_int :: "int \<Rightarrow> string" where
  "show_int i = (if i < 0 then ''-'' @ show_nat (nat (- i)) else show_nat (nat i))"

text \<open>\<^verbatim>\<open>x % m\<close> on numbers: the remainder takes the sign of \<open>x\<close>.\<close>

definition js_rem :: "real \<Rightarrow> real \<Rightarrow> real" where
  "js_rem x m = x - m * of_int (if x / m < 0 then \<lceil>x / m\<rceil> else \<lfloor>x / m\<rfloor>)"

definition formatUptime :: "real \<Rightarrow> string" where
  "formatUptime seconds =
     (let days = \<lfloor>fl (seconds / 86400)\<rfloor>;
          hours = \<lfloor>fl (js_rem seconds 86400 / 3600)\<rfloor>;
          minutes = \<lfloor>fl (js_rem seconds 3600 / 60)\<rfloor>;
          secs = \<lfloor>js_rem seconds 60\<rfloor>
      in show_int days @ ''d '' @ show_int hours @ ''h '' @ show_int minutes @ ''m ''
         @ show_int secs @ ''s'')"

text \<open>
  What a request reads from the process and the platform while it is handled. The health
  handler answers 500 only when its \<^verbatim>\<open>COUNT\<close> query raises, which no table makes
  it do, so that branch has no counterpart here.
\<close>

record ambient =
  clock :: nat
  random :: "nat \<Rightarrow> real"
  uptime :: real
  platform :: string
  pid :: nat

definition health :: "ambient \<Rightarrow> store \<Rightarrow> response" where
  "health amb st =
     \<lparr>status = 200,
      body = JsonHealth
        \<lparr>health_status = ''healthy'', version = ''1.0'', uptime_seconds = uptime amb,
         uptime_formatted = formatUptime (uptime amb), total_links = count_links st,
         server_platform = platform amb, server_pid = pid amb, timestamp = clock amb\<rparr>\<rparr>"

section \<open>Routing\<close>

text \<open>
  A request is its verb, the segments of its URL as they stand in the request line
  (\<^verbatim>\<open>/api/links/abc123\<close> is \<open>[''api'', ''links'', ''abc123'']\<close>; a slash at the
  end, which the matching ignores, is not written) and its parsed JSON body. The
  framework tries the routes in the order of their registration. It matches the path
  first and the verb second; it compares the fixed segments of a route with the segments
  as they stand, without regard to case; a parameter matches a segment of one character
  or more, which is decoded with \<^verbatim>\<open>decodeURIComponent\<close>. When the decoding fails,
  the error goes to the error handler. \<^verbatim>\<open>decodeURIComponent\<close> returns a string
  without \<open>%\<close> as it is; what it does with escapes is a parameter here, \<open>None\<close> where it
  throws.
\<close>

datatype verb = GET | POST | DELETE

record http_request =
  req_verb :: verb
  req_path :: "string list"
  req_json :: create_body

definition to_lower :: "char \<Rightarrow> char" where
  "to_lower c = (let n = (of_char c :: nat) in if 65 \<le> n \<and> n \<le> 90 then char_of (n + 32) else c)"

definition lit :: "string \<Rightarrow> string \<Rightarrow> bool" where
  "lit l x = (map to_lower x = map to_lower l)"

definition decode_param :: "(string \<Rightarrow> string option) \<Rightarrow> string \<Rightarrow> string option" where
  "decode_param decodeURIComponent x =
     (if list_ex (\<lambda>ch. ch = CHR ''%'') x then decodeURIComponent x else Some x)"

datatype route =
    RHealth | RCreate | RList | RGet string | RDelete string | RRedirect string
  | RDecodeError | RNone

fun route_of :: "(string \<Rightarrow> string option) \<Rightarrow> verb \<Rightarrow> string list \<Rightarrow> route" where
  "route_of dec v [x] =
     (if v = GET \<and> lit ''health'' x then RHealth
      else if x = [] then RNone
      else (case decode_param dec x of
              None \<Rightarrow> RDecodeError
            | Some c \<Rightarrow> if v = GET then RRedirect c else RNone))"
| "route_of dec v [a, b] =
     (if lit ''api'' a \<and> lit ''links'' b
      then (case v of POST \<Rightarrow> RCreate | GET \<Rightarrow> RList | DELETE \<Rightarrow> RNone)
      else RNone)"
| "route_of dec v [a, b, x] =
     (if lit ''api'' a \<and> lit ''links'' b \<and> x \<noteq> []
      then (case decode_param dec x of
              None \<Rightarrow> RDecodeError
            | Some c \<Rightarrow> (case v of GET \<Rightarrow> RGet c | DELETE \<Rightarrow> RDelete c | POST \<Rightarrow> RNone))
      else RNone)"
| "route_of dec v p = RNone"

definition handle_http ::
  "string \<Rightarrow> (string \<Rightarrow> string option) \<Rightarrow> (string \<Rightarrow> string option) \<Rightarrow> (string \<Rightarrow> string)
     \<Rightarrow> ambient \<Rightarrow> store \<Rightarrow> http_request \<Rightarrow> store \<times> response" where
  "handle_http BASE_URL new_URL dec encodeUrl amb st req =
     (case route_of dec (req_verb req) (req_path req) of
        RHealth \<Rightarrow> (st, health amb st)
      | RCreate \<Rightarrow> create_link BASE_URL new_URL (random amb) st (req_json req)
      | RList \<Rightarrow> (st, list_links st)
      | RGet c \<Rightarrow> (st, get_link st c)
      | RDelete c \<Rightarrow> delete_link st c
      | RRedirect c \<Rightarrow> redirect encodeUrl st (clock amb) c
      | RDecodeError \<Rightarrow> (st, error_handler)
      | RNone \<Rightarrow> (st, \<lparr>status = 404, body = FrameworkNotFound\<rparr>))"

section \<open>Runs\<close>

text \<open>
  The draws used up after \<open>j\<close> calls of \<open>genCode\<close> in one request, and the code that
  call number \<open>j\<close> (counted from 0) returns.
\<close>

fun draws_after :: "(nat \<Rightarrow> real) \<Rightarrow> nat \<Rightarrow> nat" where
  "draws_after rnd 0 = 0"
| "draws_after rnd (Suc j) = snd (genCode rnd (draws_after rnd j))"

definition candidate :: "(nat \<Rightarrow> real) \<Rightarrow> nat \<Rightarrow> string" where
  "candidate rnd j = fst (genCode rnd (draws_after rnd j))"

text \<open>Redirect requests for one code, served one after the other at the given times.\<close>

fun redirect_all :: "(string \<Rightarrow> string) \<Rightarrow> store \<Rightarrow> string \<Rightarrow> nat list \<Rightarrow> store" where
  "redirect_all encodeUrl st c [] = st"
| "redirect_all encodeUrl st c (now # ts) =
     redirect_all encodeUrl (fst (redirect encodeUrl st now c)) c ts"

text \<open>Any requests, served one after the other.\<close>

fun serve ::
  "string \<Rightarrow> (string \<Rightarrow> string option) \<Rightarrow> (string \<Rightarrow> string option) \<Rightarrow> (string \<Rightarrow> string)
     \<Rightarrow> store \<Rightarrow> (ambient \<times> http_request) list \<Rightarrow> store" where
  "serve BASE_URL new_URL dec encodeUrl st [] = st"
| "serve BASE_URL new_URL dec encodeUrl st ((amb, req) # rs) =
     serve BASE_URL new_URL dec encodeUrl
       (fst (handle_http BASE_URL new_URL dec encodeUrl amb st req)) rs"

subsection \<open>Sample inputs\<close>

text \<open>A random source that always draws 0, so that every generated code is \<open>AAAAAA\<close>.\<close>

definition zero_draws :: "nat \<Rightarrow> real" where
  "zero_draws k = 0"

text \<open>
  A random source whose every draw is the double \<open>1162219258676257 / 2^52\<close>. Its product
  with 62 is \<open>16 - 2^(-51)\<close>, which is no double and is rounded to 16, so that every
  generated code is \<open>QQQQQQ\<close>.
\<close>

definition rounding_draws :: "nat \<Rightarrow> real" where
  "rounding_draws k = 1162219258676257 / 2 ^ 52"

text \<open>A parser that accepts one URL, which is already in normal form.\<close>

definition sample_URL :: "string \<Rightarrow> string option" where
  "sample_URL s =
     (if s = ''https://example.com/page'' then Some ''https://example.com/page'' else None)"

text \<open>
  The one escape in the paths of the sample requests is \<^verbatim>\<open>%00\<close>, which
  \<^verbatim>\<open>decodeURIComponent\<close> turns into the zero byte; their decoder is asked for nothing
  else. The one URL of the samples consists of characters that \<^verbatim>\<open>encodeUrl\<close>
  leaves alone.
\<close>

definition sample_decode :: "string \<Rightarrow> string option" where
  "sample_decode s = (if s = ''%00'' then Some [CHR 0x00] else None)"

definition sample_encodeUrl :: "string \<Rightarrow> string" where
  "sample_encodeUrl s = s"

definition sample_link :: "string \<Rightarrow> int \<Rightarrow> link" where
  "sample_link c n =
     \<lparr>short_code = c, target_url = ''https://example.com/page'', total_clicks = n,
      last_clicked_time = None\<rparr>"

definition sample_ambient :: ambient where
  "sample_ambient =
     \<lparr>clock = 7, random = zero_draws, uptime = 93784.5, platform = ''linux'', pid = 1\<rparr>"

section \<open>Facts about rounding\<close>

lemma binade_bounds:
  "0 < x \<Longrightarrow> 2 powi binade x \<le> x \<and> x < 2 powi (binade x + 1)"
proof (induction x rule: binade.induct)
  case (1 x)
  show ?case
  proof (cases "2 \<le> x")
    case True
    then have b: "binade x = binade (x / 2) + 1" using "1.prems" by (subst binade.simps) simp
    have ih: "2 powi binade (x / 2) \<le> x / 2 \<and> x / 2 < 2 powi (binade (x / 2) + 1)"
      using "1.IH"(1) True "1.prems" by simp
    show ?thesis unfolding b using ih by (simp add: power_int_add field_simps)
  next
    case False
    show ?thesis
    proof (cases "x < 1")
      case True
      then have b: "binade x = binade (2 * x) - 1"
        using "1.prems" False by (subst binade.simps) simp
      have ih: "2 powi binade (2 * x) \<le> 2 * x \<and> 2 * x < 2 powi (binade (2 * x) + 1)"
        using "1.IH"(2) True False "1.prems" by simp
      show ?thesis unfolding b using ih by (simp add: power_int_add power_int_diff field_simps)
    next
      case ge: False
      then have b: "binade x = 0" using "1.prems" False by (subst binade.simps) simp
      show ?thesis unfolding b using ge False by simp
    qed
  qed
qed

lemma binade_less:
  assumes "0 < x" and "x < 2 powi e"
  shows "binade x < e"
proof (rule ccontr)
  assume "\<not> binade x < e"
  then have "e \<le> binade x" by simp
  then have "(2::real) powi e \<le> 2 powi binade x"
    by (simp add: power_int_increasing)
  then show False using binade_bounds [OF assms(1)] assms(2) by linarith
qed

lemma round_half_even_le: "y < of_int K + 1 / 2 \<Longrightarrow> round_half_even y \<le> K"
proof -
  assume a: "y < of_int K + 1 / 2"
  have f: "\<lfloor>y\<rfloor> \<le> K" using a by (simp add: floor_le_iff)
  show ?thesis
  proof (cases "\<lfloor>y\<rfloor> = K")
    case True
    then have "y - of_int \<lfloor>y\<rfloor> < 1 / 2" using a by simp
    then show ?thesis using True by (simp add: round_half_even_def Let_def)
  next
    case False
    then have "\<lfloor>y\<rfloor> + 1 \<le> K" using f by simp
    then show ?thesis by (auto simp: round_half_even_def Let_def)
  qed
qed

lemma round_half_even_ge: "of_int K \<le> y \<Longrightarrow> K \<le> round_half_even y"
proof -
  assume "of_int K \<le> y"
  then have "K \<le> \<lfloor>y\<rfloor>" by (simp add: le_floor_iff)
  then show ?thesis by (auto simp: round_half_even_def Let_def)
qed

lemma fl_ge_int:
  assumes "0 \<le> x" and "x < 2 powi 53" and "of_int i \<le> x"
  shows "of_int i \<le> fl x"
proof (cases "x = 0")
  case True
  then show ?thesis using assms(3) by (simp add: fl_def)
next
  case False
  then have pos: "0 < x" using assms(1) by simp
  define k where "k = max (binade x - 52) (- 1074)"
  have "binade x < 53" using binade_less [OF pos assms(2)] .
  then have k0: "k \<le> 0" unfolding k_def by simp
  define u :: real where "u = 2 powi k"
  have u0: "0 < u" unfolding u_def by simp
  have p: "u * 2 ^ nat (- k) = 1"
    unfolding u_def using k0 by (simp add: power_int_def field_simps)
  then have inv: "1 / u = 2 ^ nat (- k)" using u0 by (simp add: field_simps)
  have "of_int (i * 2 ^ nat (- k)) = of_int i * (1 / u)" unfolding inv by simp
  also have "\<dots> \<le> x / u" using assms(3) u0 by (simp add: field_simps)
  finally have "i * 2 ^ nat (- k) \<le> round_half_even (x / u)" by (rule round_half_even_ge)
  then have "of_int (i * 2 ^ nat (- k)) \<le> (of_int (round_half_even (x / u)) :: real)"
    by (simp only: of_int_le_iff)
  then have le: "u * of_int (i * 2 ^ nat (- k)) \<le> u * of_int (round_half_even (x / u))"
    using u0 by simp
  have "u * of_int (i * 2 ^ nat (- k)) = of_int i * (u * 2 ^ nat (- k))"
    by simp
  also have "\<dots> = of_int i" unfolding p by simp
  finally have eq: "u * of_int (i * 2 ^ nat (- k)) = of_int i" .
  have "fl x = u * of_int (round_half_even (x / u))"
    using pos by (simp add: fl_def fl_pos_def k_def u_def Let_def)
  then show ?thesis using le unfolding eq by simp
qed

lemma fl_less_int:
  assumes "0 \<le> x" and "0 \<le> e" and "e \<le> 53" and "x < 2 powi e"
    and "x < of_int j - 2 powi (e - 54)"
  shows "fl x < of_int j"
proof (cases "x = 0")
  case True
  have "(0::real) < 2 powi (e - 54)" by simp
  then have "(0::real) < of_int j" using assms(5) True by linarith
  then show ?thesis using True by (simp add: fl_def)
next
  case False
  then have pos: "0 < x" using assms(1) by simp
  define k where "k = max (binade x - 52) (- 1074)"
  have "binade x < e" using binade_less [OF pos assms(4)] .
  then have ke: "k \<le> e - 53" unfolding k_def using assms(2) by simp
  then have k0: "k \<le> 0" using assms(3) by simp
  define u :: real where "u = 2 powi k"
  have u0: "0 < u" unfolding u_def by simp
  have p: "u * 2 ^ nat (- k) = 1"
    unfolding u_def using k0 by (simp add: power_int_def field_simps)
  then have inv: "1 / u = 2 ^ nat (- k)" using u0 by (simp add: field_simps)
  have half: "u / 2 \<le> 2 powi (e - 54)"
  proof -
    have "u / 2 = 2 powi (k - 1)" unfolding u_def by (simp add: power_int_diff)
    also have "\<dots> \<le> 2 powi (e - 54)" using ke by (simp add: power_int_increasing)
    finally show ?thesis .
  qed
  define K where "K = j * 2 ^ nat (- k)"
  have "of_int j / u = of_int j * (1 / u)" by simp
  then have K: "of_int K = of_int j / u" unfolding K_def inv by simp
  have "x < of_int j - u / 2" using assms(5) half by linarith
  then have "x / u < of_int j / u - 1 / 2" using u0 by (simp add: field_simps)
  then have "x / u < of_int (K - 1) + 1 / 2" using K by simp
  then have "round_half_even (x / u) \<le> K - 1" by (rule round_half_even_le)
  then have "(of_int (round_half_even (x / u)) :: real) \<le> of_int (K - 1)"
    by (simp only: of_int_le_iff)
  then have "u * of_int (round_half_even (x / u)) \<le> u * of_int (K - 1)"
    using u0 by simp
  also have "\<dots> = u * (of_int j / u) - u" using K by (simp add: algebra_simps)
  also have "\<dots> = of_int j - u" using u0 by simp
  also have "\<dots> < of_int j" using u0 by simp
  finally have "u * of_int (round_half_even (x / u)) < of_int j" .
  moreover have "fl x = u * of_int (round_half_even (x / u))"
    using pos by (simp add: fl_def fl_pos_def k_def u_def Let_def)
  ultimately show ?thesis by simp
qed
lemma fl_nonneg: "0 \<le> x \<Longrightarrow> x < 2 powi 53 \<Longrightarrow> 0 \<le> fl x"
  using fl_ge_int [of x 0] by simp

lemma randInt_62_range:
  assumes "0 \<le> r" and "r \<le> 1 - 1 / 2 ^ 53"
  shows "0 \<le> randInt r 62 \<and> randInt r 62 < 62"
proof -
  let ?x = "r * 62"
  have x0: "0 \<le> ?x" using assms(1) by simp
  have x1: "?x \<le> 62 - 62 / 2 ^ 53" using assms(2) by simp
  have e: "?x < 2 powi 6" using x1 by simp
  have e53: "?x < 2 powi 53" using x1 by simp
  have m: "?x < of_int 62 - 2 powi (6 - 54)" using x1 by (simp add: power_int_minus)
  have lo: "0 \<le> fl ?x" using fl_nonneg [OF x0 e53] .
  have hi: "fl ?x < of_int 62" by (rule fl_less_int [OF x0 _ _ e m]) simp_all
  show ?thesis using lo hi by (simp add: randInt_def floor_less_iff)
qed

lemma length_draw_range:
  assumes "0 \<le> r" and "r \<le> 1 - 1 / 2 ^ 53"
  shows "0 \<le> \<lfloor>fl (r * 3)\<rfloor> \<and> \<lfloor>fl (r * 3)\<rfloor> < 3"
proof -
  let ?x = "r * 3"
  have x0: "0 \<le> ?x" using assms(1) by simp
  have x1: "?x \<le> 3 - 3 / 2 ^ 53" using assms(2) by simp
  have e: "?x < 2 powi 2" using x1 by simp
  have e53: "?x < 2 powi 53" using x1 by simp
  have m: "?x < of_int 3 - 2 powi (2 - 54)" using x1 by (simp add: power_int_minus)
  have lo: "0 \<le> fl ?x" using fl_nonneg [OF x0 e53] .
  have hi: "fl ?x < of_int 3" by (rule fl_less_int [OF x0 _ _ e m]) simp_all
  show ?thesis using lo hi by (simp add: floor_less_iff)
qed

lemma randInt_62_interval:
  assumes "0 \<le> r" and "r < 1"
  shows "(of_int i \<le> r * 62 \<and> r * 62 < of_int i + 1 - 1 / 2 ^ 48 \<longrightarrow> randInt r 62 = i)
    \<and> (randInt r 62 = i \<longrightarrow> of_int i - 1 / 2 ^ 48 \<le> r * 62 \<and> r * 62 < of_int i + 1)"
proof -
  let ?x = "r * 62"
  have x0: "0 \<le> ?x" using assms(1) by simp
  have e: "?x < 2 powi 6" using assms(2) by simp
  have e53: "?x < 2 powi 53" using assms(2) by simp
  have margin: "(2::real) powi (6 - 54) = 1 / 2 ^ 48" by (simp add: power_int_minus)
  have up: "fl ?x < of_int j" if "?x < of_int j - 1 / 2 ^ 48" for j
    by (rule fl_less_int [OF x0 _ _ e]) (use that margin in simp_all)
  have down: "of_int j \<le> fl ?x" if "of_int j \<le> ?x" for j
    using fl_ge_int [OF x0 e53 that] .
  have a: "randInt r 62 = i" if "of_int i \<le> ?x" and "?x < of_int i + 1 - 1 / 2 ^ 48"
  proof -
    have "of_int i \<le> fl ?x" using down that(1) .
    moreover have "fl ?x < of_int (i + 1)" using up [of "i + 1"] that(2) by simp
    ultimately show ?thesis by (simp add: randInt_def floor_eq_iff)
  qed
  have b: "of_int i - 1 / 2 ^ 48 \<le> ?x \<and> ?x < of_int i + 1" if "randInt r 62 = i"
  proof -
    from that have f: "of_int i \<le> fl ?x" "fl ?x < of_int i + 1"
      by (simp_all add: randInt_def floor_eq_iff)
    have "\<not> ?x < of_int i - 1 / 2 ^ 48" using up [of i] f(1) by linarith
    moreover have "\<not> of_int (i + 1) \<le> ?x"
    proof
      assume "of_int (i + 1) \<le> ?x"
      then have "of_int (i + 1) \<le> fl ?x" by (rule down)
      then show False using f(2) by simp
    qed
    ultimately show ?thesis by simp
  qed
  show ?thesis using a b by blast
qed

lemma rounding_example: "randInt (1162219258676257 / 2 ^ 52) 62 = 16"
  by (simp add: randInt_def fl_def fl_pos_def binade.simps round_half_even_def Let_def)

section \<open>Facts about the table and the generator\<close>

lemma has_code_filter: "has_code st c = (filter (\<lambda>r. short_code r = c) st \<noteq> [])"
  by (induction st) (auto simp: has_code_def)

lemma codeExists_ok: "pg_text c \<Longrightarrow> codeExists st c = Inr (has_code st c)"
  by (simp add: codeExists_def select_by_code_def has_code_filter)

lemma alnum_pg_text: "list_all alnum s \<Longrightarrow> pg_text s"
  by (induction s) (auto simp: pg_text_def alnum_def)

lemma matches_pg_text: "CODE_REGEX_test c \<Longrightarrow> pg_text c"
  by (simp add: CODE_REGEX_test_def alnum_pg_text)

lemma CHARS_alnum: "list_all alnum CHARS"
  by (simp add: CHARS_def alnum_def)

lemma length_CHARS: "length CHARS = 62"
  by (simp add: CHARS_def)

lemma upt_Suc_shift: "map f [0..<Suc n] = f 0 # map (\<lambda>d. f (Suc d)) [0..<n]"
  by (simp only: upt_conv_Cons [of 0 "Suc n"] zero_less_Suc if_True list.map map_Suc_upt [symmetric] map_map comp_def)

lemma genCode_loop_content:
  "genCode_loop rnd k i len s
     = (s @ concat (map (\<lambda>d. append_at [] CHARS (randInt (rnd (k + d)) (int (length CHARS))))
                      [0..<nat (len - i)]),
        k + nat (len - i))"
proof (induction rnd k i len s rule: genCode_loop.induct)
  case (1 rnd k i len s)
  show ?case
  proof (cases "i < len")
    case True
    have n: "nat (len - i) = Suc (nat (len - (i + 1)))" using True by simp
    have a: "append_at s CHARS x = s @ append_at [] CHARS x" for x
      by (simp add: append_at_def)
    show ?thesis
      using True "1.IH" [OF True]
      by (subst genCode_loop.simps) (simp add: n upt_Suc_shift a del: upt_Suc)
  next
    case False
    then show ?thesis by (subst genCode_loop.simps) simp
  qed
qed

lemma append_at_alnum: "list_all alnum (append_at [] CHARS i)"
proof (cases "0 \<le> i \<and> i < int (length CHARS)")
  case True
  then have "nat i < length CHARS" by linarith
  then have "alnum (CHARS ! nat i)" using CHARS_alnum by (simp add: list_all_length)
  then show ?thesis using True by (simp add: append_at_def)
next
  case False
  have "list_all alnum ''undefined''" by (simp add: alnum_def)
  then show ?thesis using False by (auto simp: append_at_def)
qed

lemma genCode_alnum: "list_all alnum (fst (genCode rnd k))"
  by (simp add: genCode_def genCode_loop_content list_all_iff)
     (use append_at_alnum in \<open>auto simp: list_all_iff\<close>)

lemma genCode_content:
  assumes "\<And>j. 0 \<le> rnd j \<and> rnd j \<le> 1 - 1 / 2 ^ 53"
  shows "fst (genCode rnd k)
     = map (\<lambda>d. CHARS ! nat (randInt (rnd (k + 1 + d)) 62)) [0..<nat (6 + \<lfloor>fl (rnd k * 3)\<rfloor>)]"
proof -
  have p: "append_at [] CHARS (randInt (rnd j) (int (length CHARS)))
           = [CHARS ! nat (randInt (rnd j) 62)]" for j
    using randInt_62_range [of "rnd j"] assms by (simp add: append_at_def length_CHARS)
  show ?thesis
    by (simp add: genCode_def genCode_loop_content p concat_map_singleton)
qed

lemma genCode_matches:
  assumes "\<And>j. 0 \<le> rnd j \<and> rnd j \<le> 1 - 1 / 2 ^ 53"
  shows "CODE_REGEX_test (fst (genCode rnd k))"
proof -
  have r: "0 \<le> \<lfloor>fl (rnd k * 3)\<rfloor> \<and> \<lfloor>fl (rnd k * 3)\<rfloor> < 3"
    using length_draw_range [of "rnd k"] assms by blast
  have "length (fst (genCode rnd k)) = nat (6 + \<lfloor>fl (rnd k * 3)\<rfloor>)"
    using genCode_content [of rnd k] assms by simp
  moreover have "6 \<le> nat (6 + \<lfloor>fl (rnd k * 3)\<rfloor>) \<and> nat (6 + \<lfloor>fl (rnd k * 3)\<rfloor>) \<le> 8"
    using r by linarith
  ultimately show ?thesis using genCode_alnum [of rnd k] by (simp add: CODE_REGEX_test_def)
qed

lemma genCode_candidate:
  "genCode rnd (draws_after rnd j) = (candidate rnd j, draws_after rnd (Suc j))"
  by (simp add: candidate_def)

lemma candidate_alnum: "list_all alnum (candidate rnd j)"
  by (simp add: candidate_def genCode_alnum)

lemma codeExists_candidate: "codeExists st (candidate rnd j) = Inr (has_code st (candidate rnd j))"
  by (simp add: codeExists_ok alnum_pg_text candidate_alnum)

lemma candidate_matches:
  "(\<And>j. 0 \<le> rnd j \<and> rnd j \<le> 1 - 1 / 2 ^ 53) \<Longrightarrow> CODE_REGEX_test (candidate rnd m)"
  by (simp add: candidate_def genCode_matches)

lemma generate_until_unique_exhausted:
  "j \<le> 10 \<Longrightarrow> (\<And>i. j \<le> i \<Longrightarrow> i < 10 \<Longrightarrow> has_code st (candidate rnd i)) \<Longrightarrow>
   generate_until_unique st rnd (draws_after rnd j) j
     = Inr (candidate rnd 10, 11, draws_after rnd 11)"
proof (induction "10 - j" arbitrary: j)
  case 0
  then have j: "j = 10" by simp
  show ?case
    unfolding j by (subst generate_until_unique.simps) (simp add: genCode_candidate del: draws_after.simps)
next
  case (Suc d)
  then have lt: "j < 10" by simp
  have ex: "has_code st (candidate rnd j)" using Suc.prems(2) lt by simp
  have ih: "generate_until_unique st rnd (draws_after rnd (Suc j)) (Suc j)
            = Inr (candidate rnd 10, 11, draws_after rnd 11)"
    using Suc.hyps(1) [of "Suc j"] Suc.hyps(2) Suc.prems lt by simp
  show ?case
    using lt ex ih
    by (subst generate_until_unique.simps)
       (simp add: genCode_candidate codeExists_candidate del: draws_after.simps)
qed

lemma generate_until_unique_found:
  "m \<le> 10 \<Longrightarrow> j \<le> m \<Longrightarrow> \<not> has_code st (candidate rnd m) \<Longrightarrow>
   (\<And>i. j \<le> i \<Longrightarrow> i < m \<Longrightarrow> has_code st (candidate rnd i)) \<Longrightarrow>
   generate_until_unique st rnd (draws_after rnd j) j
     = Inr (candidate rnd m, Suc m, draws_after rnd (Suc m))"
proof (induction "m - j" arbitrary: j)
  case 0
  then have j: "j = m" by simp
  show ?case
    unfolding j using "0.prems"(1,3)
    by (subst generate_until_unique.simps)
       (simp add: genCode_candidate codeExists_candidate del: draws_after.simps)
next
  case (Suc d)
  then have lt: "j < m" by simp
  have ex: "has_code st (candidate rnd j)" using Suc.prems(4) lt by simp
  have ih: "generate_until_unique st rnd (draws_after rnd (Suc j)) (Suc j)
            = Inr (candidate rnd m, Suc m, draws_after rnd (Suc m))"
    using Suc.hyps(1) [of "Suc j"] Suc.hyps(2) Suc.prems lt by simp
  show ?case
    using lt ex ih Suc.prems(1)
    by (subst generate_until_unique.simps)
       (simp add: genCode_candidate codeExists_candidate del: draws_after.simps)
qed

lemma generate_until_unique_bounded:
  "\<exists>m\<le>10. generate_until_unique st rnd 0 0
             = Inr (candidate rnd m, Suc m, draws_after rnd (Suc m))
          \<and> (\<forall>i<m. has_code st (candidate rnd i))
          \<and> (m < 10 \<longrightarrow> \<not> has_code st (candidate rnd m))"
proof (cases "\<forall>i<10. has_code st (candidate rnd i)")
  case True
  have "generate_until_unique st rnd (draws_after rnd 0) 0
        = Inr (candidate rnd 10, 11, draws_after rnd 11)"
    using generate_until_unique_exhausted [of 0 st rnd] True by simp
  then have "generate_until_unique st rnd 0 0
        = Inr (candidate rnd 10, Suc 10, draws_after rnd (Suc 10))"
    by simp
  then show ?thesis using True by blast
next
  case False
  define m where "m = (LEAST i. \<not> has_code st (candidate rnd i))"
  from False obtain i0 where i0: "i0 < 10" "\<not> has_code st (candidate rnd i0)" by blast
  have free: "\<not> has_code st (candidate rnd m)"
    unfolding m_def using i0(2) by (rule LeastI)
  have le: "m \<le> i0" unfolding m_def using i0(2) by (rule Least_le)
  have before: "\<And>i. i < m \<Longrightarrow> has_code st (candidate rnd i)"
    unfolding m_def using not_less_Least by blast
  have "generate_until_unique st rnd (draws_after rnd 0) 0
        = Inr (candidate rnd m, Suc m, draws_after rnd (Suc m))"
    using generate_until_unique_found [of m 0 st rnd] free before le i0(1) by simp
  then have "generate_until_unique st rnd 0 0
        = Inr (candidate rnd m, Suc m, draws_after rnd (Suc m))"
    by simp
  then show ?thesis using free before le i0(1) by (intro exI [of _ m]) simp
qed

lemma fl_zero: "fl 0 = 0"
  by (simp add: fl_def)

lemma genCode_zero_draws: "genCode zero_draws k = (''AAAAAA'', k + 7)"
  by (simp add: genCode_def zero_draws_def fl_zero genCode_loop.simps append_at_def randInt_def
      CHARS_def)

lemma candidate_zero_draws: "candidate zero_draws i = ''AAAAAA''"
  by (simp add: candidate_def genCode_zero_draws)

lemma zero_draws_range: "\<forall>k. 0 \<le> zero_draws k \<and> zero_draws k \<le> 1 - 1 / 2 ^ 53"
  by (simp add: zero_draws_def)

lemma has_code_sample [simp]:
  "has_code [] c = False" "has_code (sample_link c' n # st) c = (c' = c \<or> has_code st c)"
  by (simp_all add: has_code_def sample_link_def)

lemma filter_other_codes: "\<not> has_code st c \<Longrightarrow> filter (\<lambda>r. short_code r \<noteq> c) st = st"
  by (induction st) (auto simp: has_code_filter split: if_splits)

lemma not_has_code_after_delete: "\<not> has_code (filter (\<lambda>r. short_code r \<noteq> c) st) c"
  by (induction st) (auto simp: has_code_filter)

section \<open>Health route\<close>

lemma redirect_status:
  "status (snd (redirect E st now c)) = 404 \<or> status (snd (redirect E st now c)) = 500
   \<or> status (snd (redirect E st now c)) = 302"
  by (simp add: redirect_def error_handler_def split: list.split sum.split)

lemma decode_param_plain: "\<not> list_ex (\<lambda>ch. ch = CHR ''%'') x \<Longrightarrow> decode_param D x = Some x"
  by (simp add: decode_param_def)

lemma route_of_healthz: "route_of D GET [''healthz''] = RRedirect ''healthz''"
  by (simp add: lit_def decode_param_def)

lemma route_of_health: "route_of D GET [''health''] = RHealth"
  by (simp add: lit_def)

text \<open>
  Claim C6. The documentation of the backend lists \<^verbatim>\<open>GET /healthz\<close> and the health
  page of the frontend fetches it, but the server registers the summary under
  \<^verbatim>\<open>/health\<close>. A request for \<^verbatim>\<open>/healthz\<close> therefore reaches the redirect
  handler with the code \<open>healthz\<close>: its status is never 200, and on a table without that
  code the answer is 404 in plain text. The summary (status, version, uptime, number of
  links) is what \<^verbatim>\<open>GET /health\<close> returns, with status 200.
\<close>

theorem healthz_is_not_routed_to_health:
  "handle_http B U D E amb st \<lparr>req_verb = GET, req_path = [''healthz''], req_json = b\<rparr>
       = redirect E st (clock amb) ''healthz''
   \<and> status (snd (handle_http B U D E amb st
         \<lparr>req_verb = GET, req_path = [''healthz''], req_json = b\<rparr>)) \<noteq> 200
   \<and> handle_http B U D E amb [] \<lparr>req_verb = GET, req_path = [''healthz''], req_json = b\<rparr>
       = ([], \<lparr>status = 404, body = PlainText ''Not found''\<rparr>)
   \<and> handle_http B U D E amb st \<lparr>req_verb = GET, req_path = [''health''], req_json = b\<rparr>
       = (st, \<lparr>status = 200,
               body = JsonHealth
                 \<lparr>health_status = ''healthy'', version = ''1.0'',
                  uptime_seconds = uptime amb, uptime_formatted = formatUptime (uptime amb),
                  total_links = length st, server_platform = platform amb,
                  server_pid = pid amb, timestamp = clock amb\<rparr>\<rparr>)"
proof -
  let ?z = "\<lparr>req_verb = GET, req_path = [''healthz''], req_json = b\<rparr>"
  have z: "handle_http B U D E amb st ?z = redirect E st (clock amb) ''healthz''" for st
    by (simp add: handle_http_def route_of_healthz del: route_of.simps)
  have n: "status (snd (handle_http B U D E amb st ?z)) \<noteq> 200"
    using redirect_status [of E st "clock amb" "''healthz''"] by (auto simp: z)
  have e: "handle_http B U D E amb [] ?z
           = ([], \<lparr>status = 404, body = PlainText ''Not found''\<rparr>)"
    by (simp add: z redirect_def select_by_code_def pg_text_def)
  have h: "handle_http B U D E amb st
         \<lparr>req_verb = GET, req_path = [''health''], req_json = b\<rparr>
       = (st, \<lparr>status = 200,
               body = JsonHealth
                 \<lparr>health_status = ''healthy'', version = ''1.0'',
                  uptime_seconds = uptime amb, uptime_formatted = formatUptime (uptime amb),
                  total_links = length st, server_platform = platform amb,
                  server_pid = pid amb, timestamp = clock amb\<rparr>\<rparr>)"
    by (simp add: handle_http_def route_of_health health_def count_links_def
        del: route_of.simps)
  show ?thesis by (intro conjI z n e h)
qed

section \<open>Delete\<close>

lemma route_of_api_links:
  "x \<noteq> [] \<Longrightarrow> decode_param D x = Some c \<Longrightarrow>
   route_of D DELETE [''api'', ''links'', x] = RDelete c
   \<and> route_of D GET [''api'', ''links'', x] = RGet c"
  by (simp add: lit_def)

text \<open>
  Claim C7, as the code has it. Let \<open>c\<close> be a code without a zero byte. Deleting \<open>c\<close>
  when it is in the table removes the rows with that code, keeps all others, and answers
  204 without content; a later get of the same code answers 404. Deleting \<open>c\<close> when it
  is not in the table answers 404 and leaves the table as it is. For a code with a zero
  byte the database rejects the statement: delete and get answer 500 with the generic
  message, and the table is unchanged. \<^verbatim>\<open>DELETE /api/links/x\<close> and
  \<^verbatim>\<open>GET /api/links/x\<close>, with \<open>x\<close> not empty, are routed to these two handlers with
  the decoded \<open>x\<close>.
\<close>

theorem delete_then_get_not_found:
  "(pg_text c \<and> has_code st c \<longrightarrow>
      delete_link st c
        = (filter (\<lambda>r. short_code r \<noteq> c) st, \<lparr>status = 204, body = NoContent\<rparr>)
      \<and> get_link (fst (delete_link st c)) c = \<lparr>status = 404, body = JsonError ''Not found''\<rparr>)
   \<and> (pg_text c \<and> \<not> has_code st c \<longrightarrow>
      delete_link st c = (st, \<lparr>status = 404, body = JsonError ''Not found''\<rparr>))
   \<and> (\<not> pg_text c \<longrightarrow>
      delete_link st c = (st, \<lparr>status = 500, body = JsonError ''Internal server error''\<rparr>)
      \<and> get_link st c = \<lparr>status = 500, body = JsonError ''Internal server error''\<rparr>)
   \<and> (x \<noteq> [] \<and> decode_param D x = Some c \<longrightarrow>
      handle_http B U D E amb st
          \<lparr>req_verb = DELETE, req_path = [''api'', ''links'', x], req_json = b\<rparr>
        = delete_link st c
      \<and> handle_http B U D E amb st
          \<lparr>req_verb = GET, req_path = [''api'', ''links'', x], req_json = b\<rparr>
        = (st, get_link st c))"
proof (intro conjI impI)
  assume a: "pg_text c \<and> has_code st c"
  then show d: "delete_link st c
        = (filter (\<lambda>r. short_code r \<noteq> c) st, \<lparr>status = 204, body = NoContent\<rparr>)"
    by (simp add: delete_link_def delete_by_code_def has_code_filter)
  have "filter (\<lambda>r. short_code r = c) (filter (\<lambda>r. short_code r \<noteq> c) st) = []"
    using not_has_code_after_delete [of c st] by (simp add: has_code_filter)
  then show "get_link (fst (delete_link st c)) c
        = \<lparr>status = 404, body = JsonError ''Not found''\<rparr>"
    using a unfolding d by (simp add: get_link_def select_by_code_def)
next
  assume "pg_text c \<and> \<not> has_code st c"
  then show "delete_link st c = (st, \<lparr>status = 404, body = JsonError ''Not found''\<rparr>)"
    by (simp add: delete_link_def delete_by_code_def has_code_filter filter_other_codes)
next
  assume a: "\<not> pg_text c"
  then show "delete_link st c
        = (st, \<lparr>status = 500, body = JsonError ''Internal server error''\<rparr>)"
    by (simp add: delete_link_def delete_by_code_def error_handler_def)
  show "get_link st c = \<lparr>status = 500, body = JsonError ''Internal server error''\<rparr>"
    using a by (simp add: get_link_def select_by_code_def error_handler_def)
next
  assume "x \<noteq> [] \<and> decode_param D x = Some c"
  then have a: "route_of D DELETE [''api'', ''links'', x] = RDelete c
      \<and> route_of D GET [''api'', ''links'', x] = RGet c"
    using route_of_api_links by blast
  show "handle_http B U D E amb st
          \<lparr>req_verb = DELETE, req_path = [''api'', ''links'', x], req_json = b\<rparr>
        = delete_link st c"
    using a by (simp add: handle_http_def del: route_of.simps)
  show "handle_http B U D E amb st
          \<lparr>req_verb = GET, req_path = [''api'', ''links'', x], req_json = b\<rparr>
        = (st, get_link st c)"
    using a by (simp add: handle_http_def del: route_of.simps)
qed

theorem delete_then_get_not_found_witness:
  "delete_link [sample_link ''abc123'' 3, sample_link ''xyz789'' 0] ''abc123''
     = ([sample_link ''xyz789'' 0], \<lparr>status = 204, body = NoContent\<rparr>)
   \<and> get_link [sample_link ''xyz789'' 0] ''abc123''
     = \<lparr>status = 404, body = JsonError ''Not found''\<rparr>
   \<and> delete_link [sample_link ''xyz789'' 0] ''abc123''
     = ([sample_link ''xyz789'' 0], \<lparr>status = 404, body = JsonError ''Not found''\<rparr>)
   \<and> get_link [sample_link ''xyz789'' 0] [CHR 0x00]
     = \<lparr>status = 500, body = JsonError ''Internal server error''\<rparr>
   \<and> handle_http ''http://localhost:3001'' sample_URL sample_decode sample_encodeUrl
       sample_ambient [sample_link ''xyz789'' 0]
       \<lparr>req_verb = DELETE, req_path = [''api'', ''links'', ''abc123''],
        req_json = \<lparr>longUrl = None, customCode = None\<rparr>\<rparr>
     = delete_link [sample_link ''xyz789'' 0] ''abc123''"
proof -
  let ?two = "[sample_link ''abc123'' 3, sample_link ''xyz789'' 0]"
  let ?one = "[sample_link ''xyz789'' 0]"
  have p: "pg_text ''abc123''" by (simp add: pg_text_def)
  have np: "\<not> pg_text [CHR 0x00]" by (simp add: pg_text_def)
  have a: "has_code ?two ''abc123''" by simp
  have b: "\<not> has_code ?one ''abc123''" by simp
  have f: "filter (\<lambda>r. short_code r \<noteq> ''abc123'') ?two = ?one"
    by (simp add: sample_link_def)
  have dp: "''abc123'' \<noteq> [] \<and> decode_param sample_decode ''abc123'' = Some ''abc123''"
    by (simp add: decode_param_def)
  note t = delete_then_get_not_found [where c = "''abc123''" and st = ?two]
  note u = delete_then_get_not_found
    [where c = "''abc123''" and st = ?one and D = sample_decode and x = "''abc123''"
      and B = "''http://localhost:3001''" and U = sample_URL and E = sample_encodeUrl
      and amb = sample_ambient and b = "\<lparr>longUrl = None, customCode = None\<rparr>"]
  note v = delete_then_get_not_found [where c = "[CHR 0x00]" and st = ?one]
  have d1: "delete_link ?two ''abc123'' = (?one, \<lparr>status = 204, body = NoContent\<rparr>)"
    using t p a f by simp
  have d2: "get_link ?one ''abc123'' = \<lparr>status = 404, body = JsonError ''Not found''\<rparr>"
    using t p a unfolding d1 by simp
  have d3: "delete_link ?one ''abc123''
     = (?one, \<lparr>status = 404, body = JsonError ''Not found''\<rparr>)"
    using u p b by simp
  have d4: "get_link ?one [CHR 0x00]
     = \<lparr>status = 500, body = JsonError ''Internal server error''\<rparr>"
    using v np by blast
  have d5: "handle_http ''http://localhost:3001'' sample_URL sample_decode sample_encodeUrl
       sample_ambient ?one
       \<lparr>req_verb = DELETE, req_path = [''api'', ''links'', ''abc123''],
        req_json = \<lparr>longUrl = None, customCode = None\<rparr>\<rparr>
     = delete_link ?one ''abc123''"
    using u dp by blast
  show ?thesis by (intro conjI d1 d2 d3 d4 d5)
qed

theorem delete_zero_byte_counterexample:
  "\<not> has_code [] [CHR 0x00]
   \<and> delete_link [] [CHR 0x00]
     = ([], \<lparr>status = 500, body = JsonError ''Internal server error''\<rparr>)
   \<and> get_link [] [CHR 0x00] = \<lparr>status = 500, body = JsonError ''Internal server error''\<rparr>
   \<and> handle_http ''http://localhost:3001'' sample_URL sample_decode sample_encodeUrl
       sample_ambient []
       \<lparr>req_verb = DELETE, req_path = [''api'', ''links'', ''%00''],
        req_json = \<lparr>longUrl = None, customCode = None\<rparr>\<rparr>
     = ([], \<lparr>status = 500, body = JsonError ''Internal server error''\<rparr>)"
proof -
  have a: "\<not> has_code [] [CHR 0x00]"
    by simp
  have b: "delete_link [] [CHR 0x00]
     = ([], \<lparr>status = 500, body = JsonError ''Internal server error''\<rparr>)"
    by (simp add: delete_link_def delete_by_code_def pg_text_def error_handler_def)
  have c: "get_link [] [CHR 0x00]
     = \<lparr>status = 500, body = JsonError ''Internal server error''\<rparr>"
    by (simp add: get_link_def select_by_code_def pg_text_def error_handler_def)
  have "''%00'' \<noteq> [] \<and> decode_param sample_decode ''%00'' = Some [CHR 0x00]"
    by (simp add: decode_param_def sample_decode_def)
  then have "route_of sample_decode DELETE [''api'', ''links'', ''%00''] = RDelete [CHR 0x00]"
    using route_of_api_links by blast
  then have d: "handle_http ''http://localhost:3001'' sample_URL sample_decode
       sample_encodeUrl sample_ambient []
       \<lparr>req_verb = DELETE, req_path = [''api'', ''links'', ''%00''],
        req_json = \<lparr>longUrl = None, customCode = None\<rparr>\<rparr>
     = ([], \<lparr>status = 500, body = JsonError ''Internal server error''\<rparr>)"
    by (simp add: handle_http_def b del: route_of.simps)
  show ?thesis by (intro conjI a b c d)
qed

section \<open>Empty custom code\<close>

lemma create_allocate_generated:
  assumes "\<not> truthy cc"
  shows "create_allocate st rnd cc
     = (case generate_until_unique st rnd 0 0 of
          Inl err \<Rightarrow> Inl error_handler
        | Inr (c, attempts, k) \<Rightarrow>
            if has_code st c
            then Inl \<lparr>status = 500,
                      body = JsonError ''Failed to generate unique short_code, try again''\<rparr>
            else Inr c)"
proof -
  obtain m where m: "generate_until_unique st rnd 0 0
      = Inr (candidate rnd m, Suc m, draws_after rnd (Suc m))"
    using generate_until_unique_bounded [of st rnd] by blast
  show ?thesis
    using assms by (simp add: create_allocate_def m codeExists_candidate)
qed

lemma generate_zero_draws_empty: "generate_until_unique [] zero_draws 0 0 = Inr (''AAAAAA'', 1, 7)"
  by (subst generate_until_unique.simps)
     (simp add: genCode_zero_draws codeExists_def select_by_code_def pg_text_def)

lemma create_sample_generated:
  "\<not> truthy cc \<Longrightarrow>
   create_link ''http://localhost:3001'' sample_URL zero_draws []
     \<lparr>longUrl = Some ''https://example.com/page'', customCode = cc\<rparr>
   = ([sample_link ''AAAAAA'' 0],
      \<lparr>status = 201,
       body = JsonCreated (sample_link ''AAAAAA'' 0) ''http://localhost:3001/AAAAAA''\<rparr>)"
  by (simp add: create_link_def create_interleaved_def create_precheck_def
      create_validate_def create_allocate_generated generate_zero_draws_empty create_insert_def
      insert_link_def varchar8_def sample_URL_def sample_link_def pg_text_def Let_def)

text \<open>
  Claim C10. A create request whose \<^verbatim>\<open>customCode\<close> is the empty string is handled
  exactly as one without the field: the allocation goes through the random generation
  loop, and the request is never answered with the pattern-mismatch error.
\<close>

theorem empty_customCode_is_absent:
  "create_link B U rnd st \<lparr>longUrl = l, customCode = Some ''''\<rparr>
     = create_link B U rnd st \<lparr>longUrl = l, customCode = None\<rparr>
   \<and> create_allocate st rnd (Some '''')
     = (case generate_until_unique st rnd 0 0 of
          Inl err \<Rightarrow> Inl error_handler
        | Inr (c, attempts, k) \<Rightarrow>
            if has_code st c
            then Inl \<lparr>status = 500,
                      body = JsonError ''Failed to generate unique short_code, try again''\<rparr>
            else Inr c)
   \<and> body (snd (create_link B U rnd st \<lparr>longUrl = l, customCode = Some ''''\<rparr>))
     \<noteq> JsonError ''customCode must match [A-Za-z0-9]{6,8}''"
proof -
  have a: "create_allocate st rnd (Some '''') = create_allocate st rnd None"
    by (simp add: create_allocate_def truthy_def)
  have b: "create_allocate st rnd (Some '''')
     = (case generate_until_unique st rnd 0 0 of
          Inl err \<Rightarrow> Inl error_handler
        | Inr (c, attempts, k) \<Rightarrow>
            if has_code st c
            then Inl \<lparr>status = 500,
                      body = JsonError ''Failed to generate unique short_code, try again''\<rparr>
            else Inr c)"
    by (rule create_allocate_generated) (simp add: truthy_def)
  have c: "create_link B U rnd st \<lparr>longUrl = l, customCode = Some ''''\<rparr>
     = create_link B U rnd st \<lparr>longUrl = l, customCode = None\<rparr>"
  proof -
    have v: "create_validate U \<lparr>longUrl = l, customCode = Some ''''\<rparr>
             = create_validate U \<lparr>longUrl = l, customCode = None\<rparr>"
      by (simp add: create_validate_def)
    have p: "create_precheck U rnd st \<lparr>longUrl = l, customCode = Some ''''\<rparr>
             = create_precheck U rnd st \<lparr>longUrl = l, customCode = None\<rparr>"
      unfolding create_precheck_def v
      by (cases "create_validate U \<lparr>longUrl = l, customCode = None\<rparr>") (simp_all add: a)
    show ?thesis by (simp add: create_link_def create_interleaved_def p)
  qed
  have d: "body (snd (create_link B U rnd st \<lparr>longUrl = l, customCode = Some ''''\<rparr>))
     \<noteq> JsonError ''customCode must match [A-Za-z0-9]{6,8}''"
    by (simp add: create_link_def create_interleaved_def create_precheck_def
        create_validate_def b create_insert_def error_handler_def
        split: option.split sum.split prod.split)
  show ?thesis by (intro conjI c b d)
qed

theorem empty_customCode_is_absent_witness:
  "create_link ''http://localhost:3001'' sample_URL zero_draws []
     \<lparr>longUrl = Some ''https://example.com/page'', customCode = Some ''''\<rparr>
   = ([sample_link ''AAAAAA'' 0],
      \<lparr>status = 201,
       body = JsonCreated (sample_link ''AAAAAA'' 0) ''http://localhost:3001/AAAAAA''\<rparr>)"
proof -
  have e: "create_link ''http://localhost:3001'' sample_URL zero_draws []
       \<lparr>longUrl = Some ''https://example.com/page'', customCode = None\<rparr>
     = ([sample_link ''AAAAAA'' 0],
        \<lparr>status = 201,
         body = JsonCreated (sample_link ''AAAAAA'' 0) ''http://localhost:3001/AAAAAA''\<rparr>)"
    by (rule create_sample_generated) (simp add: truthy_def)
  show ?thesis
    using empty_customCode_is_absent
      [of "''http://localhost:3001''" sample_URL zero_draws "[]" "Some ''https://example.com/page''"]
      e
    by simp
qed

section \<open>Redirect\<close>

lemma select_by_code_pg_text: "select_by_code st c = Inr rows \<Longrightarrow> pg_text c"
  by (simp add: select_by_code_def split: if_splits)

lemma select_by_code_clicked:
  "select_by_code st c = Inr rows \<Longrightarrow>
   select_by_code (map (\<lambda>r. if short_code r = c then click now r else r) st) c
     = Inr (map (click now) rows)"
proof -
  assume a: "select_by_code st c = Inr rows"
  have "filter (\<lambda>r. short_code r = c) (map (\<lambda>r. if short_code r = c then click now r else r) st)
        = map (click now) (filter (\<lambda>r. short_code r = c) st)"
    by (induction st) (auto simp: click_def)
  then show ?thesis
    using a by (auto simp: select_by_code_def take_map split: if_splits)
qed

lemma update_clicks_ok:
  "pg_text c \<Longrightarrow>
   list_all (\<lambda>r. short_code r = c \<longrightarrow> total_clicks r < INT4_MAX) st \<Longrightarrow>
   update_clicks st now c = Inr (map (\<lambda>r. if short_code r = c then click now r else r) st)"
  by (auto simp: update_clicks_def list_all_iff list_ex_iff)

lemma redirect_present:
  "select_by_code st c = Inr [row] \<Longrightarrow>
   list_all (\<lambda>r. short_code r = c \<longrightarrow> total_clicks r < INT4_MAX) st \<Longrightarrow>
   redirect E st now c
     = (map (\<lambda>r. if short_code r = c then click now r else r) st,
        \<lparr>status = 302, body = Location (E (target_url row))\<rparr>)"
  using select_by_code_pg_text [of st c "[row]"]
  by (simp add: redirect_def update_clicks_ok)

lemma redirect_all_clicks:
  "select_by_code st c = Inr [row] \<Longrightarrow>
   list_all (\<lambda>r. short_code r = c \<longrightarrow> total_clicks r + int (length ts) \<le> INT4_MAX) st \<Longrightarrow>
   select_by_code (redirect_all E st c ts) c
     = Inr [row\<lparr>total_clicks := total_clicks row + int (length ts),
                last_clicked_time := (if ts = [] then last_clicked_time row else Some (last ts))\<rparr>]"
proof (induction ts arbitrary: st row)
  case Nil
  then show ?case by simp
next
  case (Cons t ts)
  let ?st = "map (\<lambda>r. if short_code r = c then click t r else r) st"
  have room: "list_all (\<lambda>r. short_code r = c \<longrightarrow> total_clicks r < INT4_MAX) st"
    by (rule list.pred_mono_strong [OF Cons.prems(2)]) auto
  have step: "redirect E st t c = (?st, \<lparr>status = 302, body = Location (E (target_url row))\<rparr>)"
    using redirect_present [OF Cons.prems(1) room] .
  have sel: "select_by_code ?st c = Inr [click t row]"
    using select_by_code_clicked [OF Cons.prems(1)] by simp
  have room': "list_all (\<lambda>r. short_code r = c \<longrightarrow> total_clicks r + int (length ts) \<le> INT4_MAX) ?st"
    unfolding list.pred_map
    by (rule list.pred_mono_strong [OF Cons.prems(2)]) (auto simp: click_def)
  have "select_by_code (redirect_all E ?st c ts) c
     = Inr [(click t row)\<lparr>total_clicks := total_clicks (click t row) + int (length ts),
          last_clicked_time :=
            (if ts = [] then last_clicked_time (click t row) else Some (last ts))\<rparr>]"
    using Cons.IH [OF sel room'] .
  then show ?case by (simp add: step click_def)
qed

lemma redirect_overflow:
  "select_by_code st c = Inr [row] \<Longrightarrow>
   list_ex (\<lambda>r. short_code r = c \<and> INT4_MAX \<le> total_clicks r) st \<Longrightarrow>
   redirect E st now c = (st, error_handler)"
proof -
  assume a: "select_by_code st c = Inr [row]"
    and b: "list_ex (\<lambda>r. short_code r = c \<and> INT4_MAX \<le> total_clicks r) st"
  have "list_ex (\<lambda>r. short_code r = c \<and> total_clicks r + 1 > INT4_MAX) st"
    using b by (auto simp: list_ex_iff)
  then show ?thesis
    using a select_by_code_pg_text [OF a] by (simp add: redirect_def update_clicks_def)
qed

lemma route_of_redirect:
  "x \<noteq> [] \<Longrightarrow> \<not> lit ''health'' x \<Longrightarrow> decode_param D x = Some c \<Longrightarrow>
   route_of D GET [x] = RRedirect c"
  by simp

text \<open>
  Claim C2, as the code has it. A request \<^verbatim>\<open>GET /x\<close> whose segment is not empty
  and not \<open>health\<close> in some letter case is handled by the redirect handler, with the
  decoded segment as the code. There, a code that is in the table, with every matching row below
  the largest \<^verbatim>\<open>INTEGER\<close>, is answered 302 with the target of the first matching
  row, in the form that the framework's \<^verbatim>\<open>encodeUrl\<close> gives it, and the single
  \<^verbatim>\<open>UPDATE\<close> statement adds exactly 1 to \<open>total_clicks\<close> and sets
  \<open>last_clicked_time\<close> to the time of the redirect; every other row is left as it is.
  Redirecting a code whose row has 0 clicks \<open>N\<close> times, with \<open>N\<close> at most 2147483647,
  leaves the row with \<open>total_clicks = N\<close> and the time of the last redirect. A code
  without a zero byte that is not in the table is answered 404 in plain text, and the
  table does not change. When a matching row has reached 2147483647, or when the code has
  a zero byte, the database raises: the answer is 500 with the generic message and the
  table does not change.
\<close>

theorem redirect_counts_clicks:
  "(select_by_code st c = Inr [row]
      \<and> list_all (\<lambda>r. short_code r = c \<longrightarrow> total_clicks r < INT4_MAX) st \<longrightarrow>
      redirect E st now c
        = (map (\<lambda>r. if short_code r = c
                     then r\<lparr>total_clicks := total_clicks r + 1, last_clicked_time := Some now\<rparr>
                     else r) st,
           \<lparr>status = 302, body = Location (E (target_url row))\<rparr>)
      \<and> update_clicks st now c = Inr (fst (redirect E st now c))
      \<and> select_by_code (fst (redirect E st now c)) c
        = Inr [row\<lparr>total_clicks := total_clicks row + 1, last_clicked_time := Some now\<rparr>])
   \<and> (select_by_code st c = Inr [row] \<and> total_clicks row = 0 \<and> ts \<noteq> []
      \<and> list_all (\<lambda>r. short_code r = c \<longrightarrow> total_clicks r + int (length ts) \<le> INT4_MAX) st \<longrightarrow>
      select_by_code (redirect_all E st c ts) c
        = Inr [row\<lparr>total_clicks := int (length ts), last_clicked_time := Some (last ts)\<rparr>])
   \<and> (select_by_code st c = Inr [] \<longrightarrow>
      redirect E st now c = (st, \<lparr>status = 404, body = PlainText ''Not found''\<rparr>))
   \<and> (select_by_code st c = Inr [row]
      \<and> list_ex (\<lambda>r. short_code r = c \<and> INT4_MAX \<le> total_clicks r) st \<longrightarrow>
      redirect E st now c
        = (st, \<lparr>status = 500, body = JsonError ''Internal server error''\<rparr>))
   \<and> (\<not> pg_text c \<longrightarrow>
      redirect E st now c
        = (st, \<lparr>status = 500, body = JsonError ''Internal server error''\<rparr>))
   \<and> (x \<noteq> [] \<and> \<not> lit ''health'' x \<and> decode_param D x = Some c \<longrightarrow>
      handle_http B U D E amb st \<lparr>req_verb = GET, req_path = [x], req_json = b\<rparr>
        = redirect E st (clock amb) c)"
proof (intro conjI impI)
  assume a: "select_by_code st c = Inr [row]
      \<and> list_all (\<lambda>r. short_code r = c \<longrightarrow> total_clicks r < INT4_MAX) st"
  have r: "redirect E st now c
     = (map (\<lambda>r. if short_code r = c then click now r else r) st,
        \<lparr>status = 302, body = Location (E (target_url row))\<rparr>)"
    using a redirect_present by blast
  have p: "pg_text c" using a select_by_code_pg_text by blast
  show "redirect E st now c
        = (map (\<lambda>r. if short_code r = c
                     then r\<lparr>total_clicks := total_clicks r + 1, last_clicked_time := Some now\<rparr>
                     else r) st,
           \<lparr>status = 302, body = Location (E (target_url row))\<rparr>)"
    using r by (simp add: click_def)
  show "update_clicks st now c = Inr (fst (redirect E st now c))"
    using a p by (simp add: r update_clicks_ok)
  have "select_by_code (map (\<lambda>r. if short_code r = c then click now r else r) st) c
        = Inr (map (click now) [row])"
    using a select_by_code_clicked by blast
  then show "select_by_code (fst (redirect E st now c)) c
        = Inr [row\<lparr>total_clicks := total_clicks row + 1, last_clicked_time := Some now\<rparr>]"
    by (simp add: r click_def)
next
  assume a: "select_by_code st c = Inr [row] \<and> total_clicks row = 0 \<and> ts \<noteq> []
      \<and> list_all (\<lambda>r. short_code r = c \<longrightarrow> total_clicks r + int (length ts) \<le> INT4_MAX) st"
  then show "select_by_code (redirect_all E st c ts) c
        = Inr [row\<lparr>total_clicks := int (length ts), last_clicked_time := Some (last ts)\<rparr>]"
    using redirect_all_clicks [of st c row ts E] by simp
next
  assume "select_by_code st c = Inr []"
  then show "redirect E st now c = (st, \<lparr>status = 404, body = PlainText ''Not found''\<rparr>)"
    by (simp add: redirect_def)
next
  assume "select_by_code st c = Inr [row]
      \<and> list_ex (\<lambda>r. short_code r = c \<and> INT4_MAX \<le> total_clicks r) st"
  then show "redirect E st now c
        = (st, \<lparr>status = 500, body = JsonError ''Internal server error''\<rparr>)"
    using redirect_overflow [of st c row E now] by (simp add: error_handler_def)
next
  assume "\<not> pg_text c"
  then show "redirect E st now c
        = (st, \<lparr>status = 500, body = JsonError ''Internal server error''\<rparr>)"
    by (simp add: redirect_def select_by_code_def error_handler_def)
next
  assume "x \<noteq> [] \<and> \<not> lit ''health'' x \<and> decode_param D x = Some c"
  then have "route_of D GET [x] = RRedirect c" using route_of_redirect by blast
  then show "handle_http B U D E amb st \<lparr>req_verb = GET, req_path = [x], req_json = b\<rparr>
        = redirect E st (clock amb) c"
    by (simp add: handle_http_def del: route_of.simps)
qed


theorem redirect_counts_clicks_witness:
  "redirect sample_encodeUrl [sample_link ''abc123'' 0] 7 ''abc123''
     = ([\<lparr>short_code = ''abc123'', target_url = ''https://example.com/page'',
          total_clicks = 1, last_clicked_time = Some 7\<rparr>],
        \<lparr>status = 302, body = Location ''https://example.com/page''\<rparr>)
   \<and> select_by_code (redirect_all sample_encodeUrl [sample_link ''abc123'' 0] ''abc123''
         [7, 8, 9]) ''abc123''
     = Inr [\<lparr>short_code = ''abc123'', target_url = ''https://example.com/page'',
          total_clicks = 3, last_clicked_time = Some 9\<rparr>]
   \<and> redirect sample_encodeUrl [sample_link ''abc123'' 0] 7 ''xyz789''
     = ([sample_link ''abc123'' 0], \<lparr>status = 404, body = PlainText ''Not found''\<rparr>)
   \<and> redirect sample_encodeUrl [sample_link ''abc123'' 2147483647] 7 ''abc123''
     = ([sample_link ''abc123'' 2147483647],
        \<lparr>status = 500, body = JsonError ''Internal server error''\<rparr>)
   \<and> redirect sample_encodeUrl [sample_link ''abc123'' 0] 7 [CHR 0x00]
     = ([sample_link ''abc123'' 0],
        \<lparr>status = 500, body = JsonError ''Internal server error''\<rparr>)
   \<and> handle_http ''http://localhost:3001'' sample_URL sample_decode sample_encodeUrl
       sample_ambient [sample_link ''abc123'' 0]
       \<lparr>req_verb = GET, req_path = [''abc123''],
        req_json = \<lparr>longUrl = None, customCode = None\<rparr>\<rparr>
     = redirect sample_encodeUrl [sample_link ''abc123'' 0] 7 ''abc123''"
proof -
  let ?st = "[sample_link ''abc123'' 0]"
  let ?full = "[sample_link ''abc123'' 2147483647]"
  have s: "select_by_code ?st ''abc123'' = Inr [sample_link ''abc123'' 0]"
    by (simp add: select_by_code_def sample_link_def pg_text_def)
  have n: "select_by_code ?st ''xyz789'' = Inr []"
    by (simp add: select_by_code_def sample_link_def pg_text_def)
  have sf: "select_by_code ?full ''abc123'' = Inr [sample_link ''abc123'' 2147483647]"
    by (simp add: select_by_code_def sample_link_def pg_text_def)
  have z: "total_clicks (sample_link ''abc123'' 0) = 0"
    by (simp add: sample_link_def)
  have m1: "list_all (\<lambda>r. short_code r = ''abc123'' \<longrightarrow> total_clicks r < INT4_MAX) ?st"
    by (simp add: sample_link_def INT4_MAX_def)
  have m3: "list_all (\<lambda>r. short_code r = ''abc123'' \<longrightarrow>
              total_clicks r + int (length [7, 8, 9 :: nat]) \<le> INT4_MAX) ?st"
    by (simp add: sample_link_def INT4_MAX_def)
  have mf: "list_ex (\<lambda>r. short_code r = ''abc123'' \<and> INT4_MAX \<le> total_clicks r) ?full"
    by (simp add: sample_link_def INT4_MAX_def)
  have np: "\<not> pg_text [CHR 0x00]" by (simp add: pg_text_def)
  have nh: "\<not> lit ''health'' ''abc123''" by (simp add: lit_def to_lower_def)
  have dp: "''abc123'' \<noteq> [] \<and> decode_param sample_decode ''abc123'' = Some ''abc123''"
    by (simp add: decode_param_def)
  note t = redirect_counts_clicks
    [where st = ?st and c = "''abc123''" and row = "sample_link ''abc123'' 0"
       and E = sample_encodeUrl and now = 7 and ts = "[7, 8, 9]" and x = "''abc123''"
       and D = sample_decode and B = "''http://localhost:3001''" and U = sample_URL
       and amb = sample_ambient and b = "\<lparr>longUrl = None, customCode = None\<rparr>"]
  note u = redirect_counts_clicks
    [where st = ?st and c = "''xyz789''" and E = sample_encodeUrl and now = 7]
  note v = redirect_counts_clicks
    [where st = ?full and c = "''abc123''" and row = "sample_link ''abc123'' 2147483647"
       and E = sample_encodeUrl and now = 7]
  note w = redirect_counts_clicks
    [where st = ?st and c = "[CHR 0x00]" and E = sample_encodeUrl and now = 7]
  have a: "redirect sample_encodeUrl ?st 7 ''abc123''
     = ([\<lparr>short_code = ''abc123'', target_url = ''https://example.com/page'',
          total_clicks = 1, last_clicked_time = Some 7\<rparr>],
        \<lparr>status = 302, body = Location ''https://example.com/page''\<rparr>)"
  proof -
    have "redirect sample_encodeUrl ?st 7 ''abc123''
      = (map (\<lambda>r. if short_code r = ''abc123''
                    then r\<lparr>total_clicks := total_clicks r + 1, last_clicked_time := Some 7\<rparr>
                    else r) ?st,
         \<lparr>status = 302,
          body = Location (sample_encodeUrl (target_url (sample_link ''abc123'' 0)))\<rparr>)"
      using t s m1 by blast
    then show ?thesis by (simp add: sample_link_def sample_encodeUrl_def)
  qed
  have b: "select_by_code (redirect_all sample_encodeUrl ?st ''abc123'' [7, 8, 9]) ''abc123''
     = Inr [\<lparr>short_code = ''abc123'', target_url = ''https://example.com/page'',
          total_clicks = 3, last_clicked_time = Some 9\<rparr>]"
  proof -
    have ne: "[7, 8, 9 :: nat] \<noteq> []" by simp
    have "select_by_code (redirect_all sample_encodeUrl ?st ''abc123'' [7, 8, 9]) ''abc123''
       = Inr [(sample_link ''abc123'' 0)\<lparr>total_clicks := int (length [7, 8, 9 :: nat]),
            last_clicked_time := Some (last [7, 8, 9])\<rparr>]"
      using t s z m3 ne by blast
    then show ?thesis by (simp add: sample_link_def del: redirect_all.simps)
  qed
  have c: "redirect sample_encodeUrl ?st 7 ''xyz789''
     = (?st, \<lparr>status = 404, body = PlainText ''Not found''\<rparr>)"
    using u n by blast
  have d: "redirect sample_encodeUrl ?full 7 ''abc123''
     = (?full, \<lparr>status = 500, body = JsonError ''Internal server error''\<rparr>)"
    using v sf mf by blast
  have e: "redirect sample_encodeUrl ?st 7 [CHR 0x00]
     = (?st, \<lparr>status = 500, body = JsonError ''Internal server error''\<rparr>)"
    using w np by blast
  have f: "handle_http ''http://localhost:3001'' sample_URL sample_decode sample_encodeUrl
       sample_ambient ?st
       \<lparr>req_verb = GET, req_path = [''abc123''],
        req_json = \<lparr>longUrl = None, customCode = None\<rparr>\<rparr>
     = redirect sample_encodeUrl ?st 7 ''abc123''"
  proof -
    have "handle_http ''http://localhost:3001'' sample_URL sample_decode sample_encodeUrl
       sample_ambient ?st
       \<lparr>req_verb = GET, req_path = [''abc123''],
        req_json = \<lparr>longUrl = None, customCode = None\<rparr>\<rparr>
     = redirect sample_encodeUrl ?st (clock sample_ambient) ''abc123''"
      using t nh dp by blast
    then show ?thesis by (simp add: sample_ambient_def)
  qed
  show ?thesis by (intro conjI a b c d e f)
qed

theorem redirect_not_always_302_counterexample:
  "select_by_code [sample_link ''abc123'' 2147483647] ''abc123''
     = Inr [sample_link ''abc123'' 2147483647]
   \<and> redirect sample_encodeUrl [sample_link ''abc123'' 2147483647] 7 ''abc123''
     = ([sample_link ''abc123'' 2147483647],
        \<lparr>status = 500, body = JsonError ''Internal server error''\<rparr>)
   \<and> \<not> has_code [] [CHR 0x00]
   \<and> redirect sample_encodeUrl [] 7 [CHR 0x00]
     = ([], \<lparr>status = 500, body = JsonError ''Internal server error''\<rparr>)
   \<and> handle_http ''http://localhost:3001'' sample_URL sample_decode sample_encodeUrl
       sample_ambient []
       \<lparr>req_verb = GET, req_path = [''%00''],
        req_json = \<lparr>longUrl = None, customCode = None\<rparr>\<rparr>
     = ([], \<lparr>status = 500, body = JsonError ''Internal server error''\<rparr>)
   \<and> has_code [sample_link ''health'' 0] ''health''
   \<and> fst (handle_http ''http://localhost:3001'' sample_URL sample_decode sample_encodeUrl
         sample_ambient [sample_link ''health'' 0]
         \<lparr>req_verb = GET, req_path = [''health''],
          req_json = \<lparr>longUrl = None, customCode = None\<rparr>\<rparr>)
     = [sample_link ''health'' 0]
   \<and> status (snd (handle_http ''http://localhost:3001'' sample_URL sample_decode
         sample_encodeUrl sample_ambient [sample_link ''health'' 0]
         \<lparr>req_verb = GET, req_path = [''health''],
          req_json = \<lparr>longUrl = None, customCode = None\<rparr>\<rparr>))
     = 200"
proof -
  have a: "select_by_code [sample_link ''abc123'' 2147483647] ''abc123''
     = Inr [sample_link ''abc123'' 2147483647]"
    by (simp add: select_by_code_def sample_link_def pg_text_def)
  have b: "redirect sample_encodeUrl [sample_link ''abc123'' 2147483647] 7 ''abc123''
     = ([sample_link ''abc123'' 2147483647],
        \<lparr>status = 500, body = JsonError ''Internal server error''\<rparr>)"
    by (simp add: redirect_def select_by_code_def update_clicks_def sample_link_def
        INT4_MAX_def pg_text_def error_handler_def)
  have c: "redirect sample_encodeUrl [] 7 [CHR 0x00]
     = ([], \<lparr>status = 500, body = JsonError ''Internal server error''\<rparr>)"
    by (simp add: redirect_def select_by_code_def pg_text_def error_handler_def)
  have "''%00'' \<noteq> [] \<and> \<not> lit ''health'' ''%00''
      \<and> decode_param sample_decode ''%00'' = Some [CHR 0x00]"
    by (simp add: lit_def to_lower_def decode_param_def sample_decode_def)
  then have "route_of sample_decode GET [''%00''] = RRedirect [CHR 0x00]"
    using route_of_redirect by blast
  then have d: "handle_http ''http://localhost:3001'' sample_URL sample_decode
       sample_encodeUrl sample_ambient []
       \<lparr>req_verb = GET, req_path = [''%00''],
        req_json = \<lparr>longUrl = None, customCode = None\<rparr>\<rparr>
     = ([], \<lparr>status = 500, body = JsonError ''Internal server error''\<rparr>)"
    by (simp add: handle_http_def sample_ambient_def c del: route_of.simps)
  have h: "handle_http ''http://localhost:3001'' sample_URL sample_decode sample_encodeUrl
         sample_ambient [sample_link ''health'' 0]
         \<lparr>req_verb = GET, req_path = [''health''],
          req_json = \<lparr>longUrl = None, customCode = None\<rparr>\<rparr>
     = ([sample_link ''health'' 0], health sample_ambient [sample_link ''health'' 0])"
    by (simp add: handle_http_def route_of_health del: route_of.simps)
  show ?thesis
    unfolding h by (intro conjI a b c d) (simp_all add: health_def)
qed

section \<open>Facts about the create handler\<close>

lemma varchar8_matches: "CODE_REGEX_test c \<Longrightarrow> varchar8 c = Inr c"
  by (simp add: CODE_REGEX_test_def varchar8_def)

lemma matches_truthy: "CODE_REGEX_test c \<Longrightarrow> truthy (Some c)"
  by (auto simp: CODE_REGEX_test_def truthy_def)

lemma matches_alnum: "CODE_REGEX_test c \<Longrightarrow> list_all alnum c"
  by (simp add: CODE_REGEX_test_def)

lemma varchar8_alnum: "list_all alnum c \<Longrightarrow> varchar8 c = Inr c \<or> varchar8 c = Inl StringDataRightTruncation"
proof (cases "length c \<le> 8")
  case True
  then show ?thesis by (simp add: varchar8_def)
next
  case False
  assume a: "list_all alnum c"
  from False obtain h t where d: "drop 8 c = h # t" by (cases "drop 8 c") auto
  then have "h \<in> set c" by (metis in_set_dropD list.set_intros(1))
  then have "alnum h" using a by (simp add: list_all_iff)
  then have "h \<noteq> CHR '' ''" by (auto simp: alnum_def)
  then show ?thesis using False d by (simp add: varchar8_def)
qed

lemma create_insert_fresh:
  "CODE_REGEX_test c \<Longrightarrow> pg_text u \<Longrightarrow> \<not> has_code st c \<Longrightarrow>
   create_insert B st c u
     = (st @ [\<lparr>short_code = c, target_url = u, total_clicks = 0, last_clicked_time = None\<rparr>],
        \<lparr>status = 201,
         body = JsonCreated
           \<lparr>short_code = c, target_url = u, total_clicks = 0, last_clicked_time = None\<rparr>
           (B @ ''/'' @ c)\<rparr>)"
  by (simp add: create_insert_def insert_link_def varchar8_matches matches_pg_text has_code_def
      Let_def)

lemma create_insert_taken:
  assumes "list_all alnum c" and "has_code st c"
  shows "create_insert B st c u = (st, error_handler)"
  using varchar8_alnum [OF assms(1)] assms(2)
  by (auto simp: create_insert_def insert_link_def has_code_def)

lemma create_allocate_code:
  assumes "create_allocate st rnd cc = Inr c"
  shows "list_all alnum c \<and> \<not> has_code st c"
proof (cases "truthy cc")
  case True
  then obtain c' where cc: "cc = Some c'" by (cases cc) (auto simp: truthy_def)
  show ?thesis
  proof (cases "CODE_REGEX_test c'")
    case m: True
    then have "codeExists st c' = Inr (has_code st c')"
      by (simp add: codeExists_ok matches_pg_text)
    then show ?thesis
      using assms True m unfolding cc create_allocate_def
      by (simp add: matches_alnum split: if_splits)
  next
    case False
    then show ?thesis using assms True unfolding cc create_allocate_def by simp
  qed
next
  case False
  obtain m where m: "generate_until_unique st rnd 0 0
      = Inr (candidate rnd m, Suc m, draws_after rnd (Suc m))"
    using generate_until_unique_bounded [of st rnd] by blast
  show ?thesis
    using assms candidate_alnum [of rnd m]
    by (simp add: create_allocate_generated [OF False] m split: if_splits)
qed

lemma create_precheck_code:
  assumes "create_precheck U rnd st b = Inr (c, u)"
  shows "list_all alnum c \<and> \<not> has_code st c"
proof -
  have "create_allocate st rnd (customCode b) = Inr c"
    using assms unfolding create_precheck_def by (simp split: sum.splits)
  then show ?thesis by (rule create_allocate_code)
qed

lemma create_validate_ok:
  "l \<noteq> [] \<Longrightarrow> U l = Some n \<Longrightarrow>
   create_validate U \<lparr>longUrl = Some l, customCode = cc\<rparr> = Inr n"
  by (simp add: create_validate_def)

lemma create_validate_status:
  "create_validate U b = Inl r \<Longrightarrow> status r = 400"
  by (auto simp: create_validate_def split: option.splits if_splits)

section \<open>Create: a race between check and insert\<close>

text \<open>
  Claim C1, as the code has it. When a create request has passed its checks for a code
  and, before its \<^verbatim>\<open>INSERT\<close> runs, another request has inserted the same code,
  the \<^verbatim>\<open>INSERT\<close> violates the unique constraint; the handler catches the error and
  passes it to the error handler, which answers 500 with the generic message
  \<open>Internal server error\<close>. No row is inserted and the failure is reported, but as an
  internal error, not as a 409 conflict: no handler looks at what kind of database error
  it caught.
\<close>

theorem insert_race_is_internal_error:
  "create_precheck U rnd st b = Inr (c, u) \<Longrightarrow>
   has_code st_later c \<Longrightarrow>
   \<not> has_code st c
   \<and> create_interleaved B U rnd st st_later b
       = (st_later, \<lparr>status = 500, body = JsonError ''Internal server error''\<rparr>)"
proof -
  assume pre: "create_precheck U rnd st b = Inr (c, u)"
    and later: "has_code st_later c"
  have code: "list_all alnum c \<and> \<not> has_code st c"
    using create_precheck_code [OF pre] .
  have "create_interleaved B U rnd st st_later b = create_insert B st_later c u"
    by (simp add: create_interleaved_def pre)
  then show ?thesis
    using code later by (simp add: create_insert_taken error_handler_def)
qed

theorem insert_race_is_internal_error_witness:
  "create_link ''http://localhost:3001'' sample_URL zero_draws []
     \<lparr>longUrl = Some ''https://example.com/page'', customCode = Some ''abc123''\<rparr>
     = ([sample_link ''abc123'' 0],
        \<lparr>status = 201,
         body = JsonCreated (sample_link ''abc123'' 0) ''http://localhost:3001/abc123''\<rparr>)
   \<and> create_interleaved ''http://localhost:3001'' sample_URL zero_draws []
       [sample_link ''abc123'' 0]
       \<lparr>longUrl = Some ''https://example.com/page'', customCode = Some ''abc123''\<rparr>
     = ([sample_link ''abc123'' 0],
        \<lparr>status = 500, body = JsonError ''Internal server error''\<rparr>)"
proof -
  have p: "create_precheck sample_URL zero_draws []
             \<lparr>longUrl = Some ''https://example.com/page'', customCode = Some ''abc123''\<rparr>
           = Inr (''abc123'', ''https://example.com/page'')"
    by (simp add: create_precheck_def create_validate_def create_allocate_def truthy_def
        sample_URL_def CODE_REGEX_test_def alnum_def codeExists_def select_by_code_def
        pg_text_def)
  have l: "has_code [sample_link ''abc123'' 0] ''abc123''"
    by simp
  have first: "create_link ''http://localhost:3001'' sample_URL zero_draws []
     \<lparr>longUrl = Some ''https://example.com/page'', customCode = Some ''abc123''\<rparr>
     = ([sample_link ''abc123'' 0],
        \<lparr>status = 201,
         body = JsonCreated (sample_link ''abc123'' 0) ''http://localhost:3001/abc123''\<rparr>)"
    by (simp add: create_link_def create_interleaved_def p create_insert_def insert_link_def
        varchar8_def sample_link_def pg_text_def Let_def)
  have second: "create_interleaved ''http://localhost:3001'' sample_URL zero_draws []
       [sample_link ''abc123'' 0]
       \<lparr>longUrl = Some ''https://example.com/page'', customCode = Some ''abc123''\<rparr>
     = ([sample_link ''abc123'' 0],
        \<lparr>status = 500, body = JsonError ''Internal server error''\<rparr>)"
    using insert_race_is_internal_error [OF p l, of "''http://localhost:3001''"] by simp
  show ?thesis by (intro conjI first second)
qed

theorem insert_race_conflict_counterexample:
  "create_precheck sample_URL zero_draws []
     \<lparr>longUrl = Some ''https://example.com/page'', customCode = Some ''abc123''\<rparr>
     = Inr (''abc123'', ''https://example.com/page'')
   \<and> create_insert ''http://localhost:3001'' [] ''abc123'' ''https://example.com/page''
     = ([sample_link ''abc123'' 0],
        \<lparr>status = 201,
         body = JsonCreated (sample_link ''abc123'' 0) ''http://localhost:3001/abc123''\<rparr>)
   \<and> status (snd (create_interleaved ''http://localhost:3001'' sample_URL zero_draws []
       [sample_link ''abc123'' 0]
       \<lparr>longUrl = Some ''https://example.com/page'', customCode = Some ''abc123''\<rparr>)) \<noteq> 409
   \<and> create_interleaved ''http://localhost:3001'' sample_URL zero_draws []
       [sample_link ''abc123'' 0]
       \<lparr>longUrl = Some ''https://example.com/page'', customCode = Some ''abc123''\<rparr>
     = ([sample_link ''abc123'' 0],
        \<lparr>status = 500, body = JsonError ''Internal server error''\<rparr>)"
  by (simp add: create_interleaved_def create_precheck_def create_validate_def
      create_allocate_def truthy_def sample_URL_def CODE_REGEX_test_def alnum_def codeExists_def
      select_by_code_def create_insert_def insert_link_def varchar8_def sample_link_def Let_def
      pg_text_def error_handler_def)

section \<open>Create: success\<close>

lemma genCode_rounding_draws: "genCode rounding_draws k = (''QQQQQQ'', k + 7)"
proof -
  have l: "\<lfloor>fl (rounding_draws j * 3)\<rfloor> = 0" for j
    by (simp add: rounding_draws_def fl_def fl_pos_def binade.simps round_half_even_def Let_def)
  have c: "randInt (rounding_draws j) 62 = 16" for j
    unfolding rounding_draws_def by (rule rounding_example)
  have n: "CHARS ! 16 = CHR ''Q''" by (simp add: CHARS_def)
  have a: "append_at s CHARS 16 = s @ ''Q''" for s
    by (simp add: append_at_def n length_CHARS)
  show ?thesis
    by (simp add: genCode_def l genCode_loop.simps c a length_CHARS)
qed

lemma candidate_rounding_draws: "candidate rounding_draws i = ''QQQQQQ''"
  by (simp add: candidate_def genCode_rounding_draws)

lemma rounding_draws_range:
  "\<forall>k. 0 \<le> rounding_draws k \<and> rounding_draws k \<le> 1 - 1 / 2 ^ 53"
  by (simp add: rounding_draws_def)

lemma create_allocate_custom:
  "CODE_REGEX_test c \<Longrightarrow> \<not> has_code st c \<Longrightarrow> create_allocate st rnd (Some c) = Inr c"
  by (simp add: create_allocate_def matches_truthy codeExists_ok matches_pg_text)

lemma create_allocate_random:
  assumes "\<not> truthy cc" and "m \<le> 10" and "\<not> has_code st (candidate rnd m)"
    and "\<And>i. i < m \<Longrightarrow> has_code st (candidate rnd i)"
  shows "create_allocate st rnd cc = Inr (candidate rnd m)"
proof -
  have "generate_until_unique st rnd (draws_after rnd 0) 0
        = Inr (candidate rnd m, Suc m, draws_after rnd (Suc m))"
    using generate_until_unique_found [of m 0 st rnd] assms(2,3,4) by blast
  then have "generate_until_unique st rnd 0 0
        = Inr (candidate rnd m, Suc m, draws_after rnd (Suc m))"
    by simp
  then show ?thesis using assms(3) by (simp add: create_allocate_generated [OF assms(1)])
qed

lemma create_link_allocated:
  assumes "l \<noteq> []" and "U l = Some n" and "pg_text n" and "create_allocate st rnd cc = Inr c"
    and "CODE_REGEX_test c" and "\<not> has_code st c"
  shows "create_link B U rnd st \<lparr>longUrl = Some l, customCode = cc\<rparr>
     = (st @ [\<lparr>short_code = c, target_url = n, total_clicks = 0, last_clicked_time = None\<rparr>],
        \<lparr>status = 201,
         body = JsonCreated
           \<lparr>short_code = c, target_url = n, total_clicks = 0, last_clicked_time = None\<rparr>
           (B @ ''/'' @ c)\<rparr>)"
proof -
  have "create_precheck U rnd st \<lparr>longUrl = Some l, customCode = cc\<rparr> = Inr (c, n)"
    using assms(1,2,4) by (simp add: create_precheck_def create_validate_ok)
  then show ?thesis
    using assms(3,5,6) by (simp add: create_link_def create_interleaved_def create_insert_fresh)
qed

lemma create_link_invalid_url:
  "U l = None \<Longrightarrow>
   create_link B U rnd st \<lparr>longUrl = Some l, customCode = cc\<rparr>
     = (st, \<lparr>status = 400,
             body = JsonError (if l = [] then ''longUrl is required''
                               else ''Invalid URL provided'')\<rparr>)"
  by (simp add: create_link_def create_interleaved_def create_precheck_def create_validate_def)

lemma route_of_create: "route_of D POST [''api'', ''links''] = RCreate"
  by (simp add: lit_def)

lemma create_link_exhausted:
  assumes "\<And>i. i \<le> 10 \<Longrightarrow> has_code st (candidate rnd i)"
    and "\<not> truthy cc" and "l \<noteq> []" and "U l = Some n"
  shows "create_link B U rnd st \<lparr>longUrl = Some l, customCode = cc\<rparr>
     = (st, \<lparr>status = 500,
             body = JsonError ''Failed to generate unique short_code, try again''\<rparr>)"
proof -
  have "generate_until_unique st rnd (draws_after rnd 0) 0
        = Inr (candidate rnd 10, 11, draws_after rnd 11)"
    using generate_until_unique_exhausted [of 0 st rnd] assms(1) by simp
  then have g: "generate_until_unique st rnd 0 0
        = Inr (candidate rnd 10, 11, draws_after rnd 11)"
    by simp
  have "create_allocate st rnd cc
        = Inl \<lparr>status = 500,
               body = JsonError ''Failed to generate unique short_code, try again''\<rparr>"
    using assms(1) [of 10] by (simp add: create_allocate_generated [OF assms(2)] g)
  then show ?thesis
    using assms(3,4)
    by (simp add: create_link_def create_interleaved_def create_precheck_def create_validate_ok)
qed

text \<open>
  Claim C3, as the code has it. Let \<open>longUrl\<close> be a non-empty string that the URL
  parser accepts, with normal form \<open>n\<close> (which, as every URL in normal form, has no zero
  byte). If the request supplies a custom code that matches the pattern and is not in
  the table, or supplies none and, the random draws being doubles in \<open>[0, 1)\<close>, one of
  the at most eleven generated candidates is not in the table (\<open>code\<close> being the first
  such), then create answers 201, appends the row \<open>(code, n, 0, NULL)\<close> to the table,
  returns that row with the short URL \<open>BASE_URL/code\<close>, and \<open>code\<close> matches
  \<^verbatim>\<open>[A-Za-z0-9]{6,8}\<close>. A \<open>longUrl\<close> that the parser rejects is answered 400 and
  the table is unchanged. When all eleven candidates are taken the request fails although
  its URL is valid. \<^verbatim>\<open>POST /api/links\<close> is routed to this handler.
\<close>

theorem create_succeeds_with_free_code:
  "(l \<noteq> [] \<and> U l = Some n \<and> pg_text n
      \<and> ((cc = Some code \<and> CODE_REGEX_test code \<and> \<not> has_code st code)
         \<or> (\<not> truthy cc \<and> (\<forall>k. 0 \<le> rnd k \<and> rnd k \<le> 1 - 1 / 2 ^ 53)
            \<and> m \<le> 10 \<and> code = candidate rnd m \<and> \<not> has_code st code
            \<and> (\<forall>i<m. has_code st (candidate rnd i)))) \<longrightarrow>
      create_link B U rnd st \<lparr>longUrl = Some l, customCode = cc\<rparr>
        = (st @ [\<lparr>short_code = code, target_url = n, total_clicks = 0,
                  last_clicked_time = None\<rparr>],
           \<lparr>status = 201,
            body = JsonCreated
              \<lparr>short_code = code, target_url = n, total_clicks = 0, last_clicked_time = None\<rparr>
              (B @ ''/'' @ code)\<rparr>)
      \<and> CODE_REGEX_test code)
   \<and> (U l = None \<longrightarrow>
      create_link B U rnd st \<lparr>longUrl = Some l, customCode = cc\<rparr>
        = (st, \<lparr>status = 400,
                body = JsonError (if l = [] then ''longUrl is required''
                                  else ''Invalid URL provided'')\<rparr>))
   \<and> handle_http B U D E amb st
         \<lparr>req_verb = POST, req_path = [''api'', ''links''], req_json = b\<rparr>
       = create_link B U (random amb) st b"
proof (intro conjI impI)
  assume h: "l \<noteq> [] \<and> U l = Some n \<and> pg_text n
      \<and> ((cc = Some code \<and> CODE_REGEX_test code \<and> \<not> has_code st code)
         \<or> (\<not> truthy cc \<and> (\<forall>k. 0 \<le> rnd k \<and> rnd k \<le> 1 - 1 / 2 ^ 53)
            \<and> m \<le> 10 \<and> code = candidate rnd m \<and> \<not> has_code st code
            \<and> (\<forall>i<m. has_code st (candidate rnd i))))"
  have a: "create_allocate st rnd cc = Inr code \<and> CODE_REGEX_test code \<and> \<not> has_code st code"
  proof -
    from h consider
        (custom) "cc = Some code" "CODE_REGEX_test code" "\<not> has_code st code"
      | (random) "\<not> truthy cc" "\<forall>k. 0 \<le> rnd k \<and> rnd k \<le> 1 - 1 / 2 ^ 53" "m \<le> 10"
          "code = candidate rnd m" "\<not> has_code st code"
          "\<forall>i<m. has_code st (candidate rnd i)"
      by blast
    then show ?thesis
    proof cases
      case custom
      then show ?thesis by (simp add: create_allocate_custom)
    next
      case random
      have "create_allocate st rnd cc = Inr (candidate rnd m)"
        using create_allocate_random [of cc m st rnd] random by blast
      moreover have "CODE_REGEX_test (candidate rnd m)"
        using candidate_matches [of rnd m] random(2) by blast
      ultimately show ?thesis using random by simp
    qed
  qed
  show "create_link B U rnd st \<lparr>longUrl = Some l, customCode = cc\<rparr>
        = (st @ [\<lparr>short_code = code, target_url = n, total_clicks = 0,
                  last_clicked_time = None\<rparr>],
           \<lparr>status = 201,
            body = JsonCreated
              \<lparr>short_code = code, target_url = n, total_clicks = 0, last_clicked_time = None\<rparr>
              (B @ ''/'' @ code)\<rparr>)"
    using create_link_allocated [of l U n st rnd cc code B] h a by blast
  show "CODE_REGEX_test code" using a by blast
next
  assume "U l = None"
  then show "create_link B U rnd st \<lparr>longUrl = Some l, customCode = cc\<rparr>
        = (st, \<lparr>status = 400,
                body = JsonError (if l = [] then ''longUrl is required''
                                  else ''Invalid URL provided'')\<rparr>)"
    by (rule create_link_invalid_url)
next
  show "handle_http B U D E amb st
          \<lparr>req_verb = POST, req_path = [''api'', ''links''], req_json = b\<rparr>
        = create_link B U (random amb) st b"
    by (simp add: handle_http_def route_of_create del: route_of.simps)
qed

theorem create_succeeds_with_free_code_witness:
  "create_link ''http://localhost:3001'' sample_URL zero_draws []
     \<lparr>longUrl = Some ''https://example.com/page'', customCode = Some ''abc123''\<rparr>
     = ([sample_link ''abc123'' 0],
        \<lparr>status = 201,
         body = JsonCreated (sample_link ''abc123'' 0) ''http://localhost:3001/abc123''\<rparr>)
   \<and> create_link ''http://localhost:3001'' sample_URL rounding_draws [sample_link ''abc123'' 0]
     \<lparr>longUrl = Some ''https://example.com/page'', customCode = None\<rparr>
     = ([sample_link ''abc123'' 0, sample_link ''QQQQQQ'' 0],
        \<lparr>status = 201,
         body = JsonCreated (sample_link ''QQQQQQ'' 0) ''http://localhost:3001/QQQQQQ''\<rparr>)
   \<and> create_link ''http://localhost:3001'' sample_URL zero_draws []
     \<lparr>longUrl = Some ''not-a-url'', customCode = None\<rparr>
     = ([], \<lparr>status = 400, body = JsonError ''Invalid URL provided''\<rparr>)"
proof -
  have u: "''https://example.com/page'' \<noteq> []
           \<and> sample_URL ''https://example.com/page'' = Some ''https://example.com/page''
           \<and> pg_text ''https://example.com/page''"
    by (simp add: sample_URL_def pg_text_def)
  have bad: "sample_URL ''not-a-url'' = None"
    by (simp add: sample_URL_def)
  have m: "CODE_REGEX_test ''abc123''"
    by (simp add: CODE_REGEX_test_def alnum_def)
  have a: "create_link ''http://localhost:3001'' sample_URL zero_draws []
     \<lparr>longUrl = Some ''https://example.com/page'', customCode = Some ''abc123''\<rparr>
     = ([sample_link ''abc123'' 0],
        \<lparr>status = 201,
         body = JsonCreated (sample_link ''abc123'' 0) ''http://localhost:3001/abc123''\<rparr>)"
    using create_succeeds_with_free_code
      [where l = "''https://example.com/page''" and U = sample_URL
        and n = "''https://example.com/page''" and cc = "Some ''abc123''"
        and code = "''abc123''" and st = "[]" and B = "''http://localhost:3001''"
        and rnd = zero_draws]
      u m
    by (simp add: sample_link_def)
  have b: "create_link ''http://localhost:3001'' sample_URL rounding_draws
       [sample_link ''abc123'' 0]
     \<lparr>longUrl = Some ''https://example.com/page'', customCode = None\<rparr>
     = ([sample_link ''abc123'' 0, sample_link ''QQQQQQ'' 0],
        \<lparr>status = 201,
         body = JsonCreated (sample_link ''QQQQQQ'' 0) ''http://localhost:3001/QQQQQQ''\<rparr>)"
    using create_succeeds_with_free_code
      [where l = "''https://example.com/page''" and U = sample_URL
        and n = "''https://example.com/page''" and cc = None
        and code = "''QQQQQQ''" and st = "[sample_link ''abc123'' 0]" and m = 0
        and B = "''http://localhost:3001''" and rnd = rounding_draws]
      u rounding_draws_range
    by (simp add: candidate_rounding_draws truthy_def) (simp add: sample_link_def)
  have c: "create_link ''http://localhost:3001'' sample_URL zero_draws []
     \<lparr>longUrl = Some ''not-a-url'', customCode = None\<rparr>
     = ([], \<lparr>status = 400, body = JsonError ''Invalid URL provided''\<rparr>)"
    using create_succeeds_with_free_code
      [where l = "''not-a-url''" and U = sample_URL and cc = None
        and st = "[]" and B = "''http://localhost:3001''" and rnd = zero_draws]
      bad
    by simp
  show ?thesis by (intro conjI a b c)
qed

theorem create_exhausted_counterexample:
  "sample_URL ''https://example.com/page'' = Some ''https://example.com/page''
   \<and> create_link ''http://localhost:3001'' sample_URL zero_draws [sample_link ''AAAAAA'' 0]
       \<lparr>longUrl = Some ''https://example.com/page'', customCode = None\<rparr>
     = ([sample_link ''AAAAAA'' 0],
        \<lparr>status = 500,
         body = JsonError ''Failed to generate unique short_code, try again''\<rparr>)
   \<and> create_link ''http://localhost:3001'' sample_URL rounding_draws [sample_link ''QQQQQQ'' 0]
       \<lparr>longUrl = Some ''https://example.com/page'', customCode = None\<rparr>
     = ([sample_link ''QQQQQQ'' 0],
        \<lparr>status = 500,
         body = JsonError ''Failed to generate unique short_code, try again''\<rparr>)"
proof -
  have u: "sample_URL ''https://example.com/page'' = Some ''https://example.com/page''"
    by (simp add: sample_URL_def)
  have n: "\<not> truthy None" by (simp add: truthy_def)
  have a: "create_link ''http://localhost:3001'' sample_URL zero_draws
       [sample_link ''AAAAAA'' 0]
       \<lparr>longUrl = Some ''https://example.com/page'', customCode = None\<rparr>
     = ([sample_link ''AAAAAA'' 0],
        \<lparr>status = 500,
         body = JsonError ''Failed to generate unique short_code, try again''\<rparr>)"
    using create_link_exhausted
      [where st = "[sample_link ''AAAAAA'' 0]" and rnd = zero_draws and cc = None
        and l = "''https://example.com/page''" and U = sample_URL
        and n = "''https://example.com/page''" and B = "''http://localhost:3001''"] n u
    by (simp add: candidate_zero_draws)
  have b: "create_link ''http://localhost:3001'' sample_URL rounding_draws
       [sample_link ''QQQQQQ'' 0]
       \<lparr>longUrl = Some ''https://example.com/page'', customCode = None\<rparr>
     = ([sample_link ''QQQQQQ'' 0],
        \<lparr>status = 500,
         body = JsonError ''Failed to generate unique short_code, try again''\<rparr>)"
    using create_link_exhausted
      [where st = "[sample_link ''QQQQQQ'' 0]" and rnd = rounding_draws and cc = None
        and l = "''https://example.com/page''" and U = sample_URL
        and n = "''https://example.com/page''" and B = "''http://localhost:3001''"] n u
    by (simp add: candidate_rounding_draws)
  show ?thesis by (intro conjI u a b)
qed

section \<open>Create: rejected custom codes\<close>

lemma create_allocate_mismatch:
  "c \<noteq> [] \<Longrightarrow> \<not> CODE_REGEX_test c \<Longrightarrow>
   create_allocate st rnd (Some c)
     = Inl \<lparr>status = 400, body = JsonError ''customCode must match [A-Za-z0-9]{6,8}''\<rparr>"
  by (simp add: create_allocate_def truthy_def)

lemma create_allocate_taken:
  "CODE_REGEX_test c \<Longrightarrow> has_code st c \<Longrightarrow>
   create_allocate st rnd (Some c)
     = Inl \<lparr>status = 409, body = JsonError ''Code already exists''\<rparr>"
  by (simp add: create_allocate_def matches_truthy codeExists_ok matches_pg_text)

lemma create_link_refused:
  "create_allocate st rnd (customCode b) = Inl r \<Longrightarrow>
   fst (create_link B U rnd st b) = st
   \<and> (case create_validate U b of
         Inl r' \<Rightarrow> snd (create_link B U rnd st b) = r'
       | Inr n \<Rightarrow> snd (create_link B U rnd st b) = r)"
  by (simp add: create_link_def create_interleaved_def create_precheck_def split: sum.split)

text \<open>
  Claim C4, as the code has it. A non-empty custom code that does not match
  \<^verbatim>\<open>[A-Za-z0-9]{6,8}\<close> makes create answer 400 and insert no row, whatever the
  rest of the body; when \<open>longUrl\<close> is valid the answer is the pattern error. A custom
  code that matches the pattern and is already in the table inserts no row either, and
  when \<open>longUrl\<close> is valid the answer is 409 \<open>Code already exists\<close>. The empty string
  does not match the pattern, yet it is not rejected: it counts as no custom code, and
  a row with a generated code is inserted.
\<close>

theorem create_rejects_bad_or_taken_code:
  "(c \<noteq> [] \<and> \<not> CODE_REGEX_test c \<longrightarrow>
      status (snd (create_link B U rnd st \<lparr>longUrl = l, customCode = Some c\<rparr>)) = 400
      \<and> fst (create_link B U rnd st \<lparr>longUrl = l, customCode = Some c\<rparr>) = st)
   \<and> (c \<noteq> [] \<and> \<not> CODE_REGEX_test c \<and> l = Some u \<and> u \<noteq> [] \<and> U u = Some n \<longrightarrow>
      snd (create_link B U rnd st \<lparr>longUrl = l, customCode = Some c\<rparr>)
        = \<lparr>status = 400, body = JsonError ''customCode must match [A-Za-z0-9]{6,8}''\<rparr>)
   \<and> (CODE_REGEX_test c \<and> has_code st c \<longrightarrow>
      fst (create_link B U rnd st \<lparr>longUrl = l, customCode = Some c\<rparr>) = st)
   \<and> (CODE_REGEX_test c \<and> has_code st c \<and> l = Some u \<and> u \<noteq> [] \<and> U u = Some n \<longrightarrow>
      snd (create_link B U rnd st \<lparr>longUrl = l, customCode = Some c\<rparr>)
        = \<lparr>status = 409, body = JsonError ''Code already exists''\<rparr>)"
proof (intro conjI impI)
  let ?b = "\<lparr>longUrl = l, customCode = Some c\<rparr>"
  let ?r400 = "\<lparr>status = 400, body = JsonError ''customCode must match [A-Za-z0-9]{6,8}''\<rparr>"
  let ?r409 = "\<lparr>status = 409, body = JsonError ''Code already exists''\<rparr>"
  {
    assume a: "c \<noteq> [] \<and> \<not> CODE_REGEX_test c"
    have al: "create_allocate st rnd (customCode ?b) = Inl ?r400"
      using a by (simp add: create_allocate_mismatch)
    note f = create_link_refused [OF al, of B U]
    show "fst (create_link B U rnd st ?b) = st" using f by blast
    show "status (snd (create_link B U rnd st ?b)) = 400"
    proof (cases "create_validate U ?b")
      case (Inl r')
      then show ?thesis using f create_validate_status [OF Inl] by simp
    next
      case (Inr n')
      then show ?thesis using f by simp
    qed
  }
  {
    assume a: "c \<noteq> [] \<and> \<not> CODE_REGEX_test c \<and> l = Some u \<and> u \<noteq> [] \<and> U u = Some n"
    have al: "create_allocate st rnd (customCode ?b) = Inl ?r400"
      using a by (simp add: create_allocate_mismatch)
    have v: "create_validate U ?b = Inr n"
      using a by (simp add: create_validate_ok)
    show "snd (create_link B U rnd st ?b) = ?r400"
      using create_link_refused [OF al, of B U] v by simp
  }
  {
    assume a: "CODE_REGEX_test c \<and> has_code st c"
    have al: "create_allocate st rnd (customCode ?b) = Inl ?r409"
      using a by (simp add: create_allocate_taken)
    show "fst (create_link B U rnd st ?b) = st"
      using create_link_refused [OF al, of B U] by blast
  }
  {
    assume a: "CODE_REGEX_test c \<and> has_code st c \<and> l = Some u \<and> u \<noteq> [] \<and> U u = Some n"
    have al: "create_allocate st rnd (customCode ?b) = Inl ?r409"
      using a by (simp add: create_allocate_taken)
    have v: "create_validate U ?b = Inr n"
      using a by (simp add: create_validate_ok)
    show "snd (create_link B U rnd st ?b) = ?r409"
      using create_link_refused [OF al, of B U] v by simp
  }
qed

theorem create_rejects_bad_or_taken_code_witness:
  "create_link ''http://localhost:3001'' sample_URL zero_draws [sample_link ''abc123'' 0]
     \<lparr>longUrl = Some ''https://example.com/page'', customCode = Some ''ab-12''\<rparr>
     = ([sample_link ''abc123'' 0],
        \<lparr>status = 400, body = JsonError ''customCode must match [A-Za-z0-9]{6,8}''\<rparr>)
   \<and> create_link ''http://localhost:3001'' sample_URL zero_draws [sample_link ''abc123'' 0]
     \<lparr>longUrl = Some ''https://example.com/page'', customCode = Some ''abc123''\<rparr>
     = ([sample_link ''abc123'' 0],
        \<lparr>status = 409, body = JsonError ''Code already exists''\<rparr>)"
proof -
  have u: "''https://example.com/page'' \<noteq> []
           \<and> sample_URL ''https://example.com/page'' = Some ''https://example.com/page''"
    by (simp add: sample_URL_def)
  have bad: "''ab-12'' \<noteq> [] \<and> \<not> CODE_REGEX_test ''ab-12''"
    by (simp add: CODE_REGEX_test_def)
  have good: "CODE_REGEX_test ''abc123'' \<and> has_code [sample_link ''abc123'' 0] ''abc123''"
    by (simp add: CODE_REGEX_test_def alnum_def)
  note t1 = create_rejects_bad_or_taken_code
    [where c = "''ab-12''" and B = "''http://localhost:3001''" and U = sample_URL
      and rnd = zero_draws and st = "[sample_link ''abc123'' 0]"
      and l = "Some ''https://example.com/page''" and u = "''https://example.com/page''"
      and n = "''https://example.com/page''"]
  note t2 = create_rejects_bad_or_taken_code
    [where c = "''abc123''" and B = "''http://localhost:3001''" and U = sample_URL
      and rnd = zero_draws and st = "[sample_link ''abc123'' 0]"
      and l = "Some ''https://example.com/page''" and u = "''https://example.com/page''"
      and n = "''https://example.com/page''"]
  have a: "create_link ''http://localhost:3001'' sample_URL zero_draws [sample_link ''abc123'' 0]
     \<lparr>longUrl = Some ''https://example.com/page'', customCode = Some ''ab-12''\<rparr>
     = ([sample_link ''abc123'' 0],
        \<lparr>status = 400, body = JsonError ''customCode must match [A-Za-z0-9]{6,8}''\<rparr>)"
    using t1 u bad by (simp add: prod_eq_iff)
  have b: "create_link ''http://localhost:3001'' sample_URL zero_draws [sample_link ''abc123'' 0]
     \<lparr>longUrl = Some ''https://example.com/page'', customCode = Some ''abc123''\<rparr>
     = ([sample_link ''abc123'' 0],
        \<lparr>status = 409, body = JsonError ''Code already exists''\<rparr>)"
    using t2 u good by (simp add: prod_eq_iff)
  show ?thesis by (intro conjI a b)
qed

theorem create_empty_code_counterexample:
  "\<not> CODE_REGEX_test ''''
   \<and> create_link ''http://localhost:3001'' sample_URL zero_draws []
       \<lparr>longUrl = Some ''https://example.com/page'', customCode = Some ''''\<rparr>
     = ([sample_link ''AAAAAA'' 0],
        \<lparr>status = 201,
         body = JsonCreated (sample_link ''AAAAAA'' 0) ''http://localhost:3001/AAAAAA''\<rparr>)"
proof -
  have a: "\<not> CODE_REGEX_test ''''"
    by (simp add: CODE_REGEX_test_def)
  have t: "\<not> truthy (Some '''')"
    by (simp add: truthy_def)
  show ?thesis by (intro conjI a create_sample_generated [OF t])
qed

section \<open>Create: random generation\<close>

text \<open>
  Claim C5. \<^verbatim>\<open>Math.random\<close> returns a double in \<open>[0, 1)\<close>, that is a number between 0
  and \<open>1 - 2^(-53)\<close>. With such draws every generated candidate matches
  \<^verbatim>\<open>[A-Za-z0-9]{6,8}\<close>: its length is \<open>6 + \<lfloor>fl (3 r)\<rfloor>\<close> for the first draw \<open>r\<close>, and each
  character is \<open>CHARS[\<lfloor>fl (62 r)\<rfloor>]\<close> for a draw of its own, where \<open>fl\<close> rounds the product
  to a double and \<open>CHARS\<close> holds 62 distinct alphanumeric characters. The index of a draw
  \<open>r\<close> is between 0 and 61; it is \<open>i\<close> whenever \<open>62 r\<close> lies in \<open>[i, i + 1 - 2^(-48))\<close>, and
  only if \<open>62 r\<close> lies in \<open>[i - 2^(-48), i + 1)\<close>: every index is chosen on an interval of
  draws of the same width, up to the rounding of the product at its upper end. The
  generation loop always ends, after at most eleven candidates: it stops at the first
  candidate that is not in the table, or with the eleventh. When all eleven are in the
  table, a create request without a custom code and with a valid URL is answered 500 with
  \<open>Failed to generate unique short_code, try again\<close>, and the table is unchanged.
\<close>

theorem random_generation_is_bounded:
  "(\<forall>k. 0 \<le> rnd k \<and> rnd k \<le> 1 - 1 / 2 ^ 53) \<Longrightarrow>
   CODE_REGEX_test (candidate rnd j)
   \<and> candidate rnd j
       = map (\<lambda>d. CHARS ! nat (randInt (rnd (draws_after rnd j + 1 + d)) 62))
           [0..<nat (6 + \<lfloor>fl (rnd (draws_after rnd j) * 3)\<rfloor>)]
   \<and> (0 \<le> r \<and> r \<le> 1 - 1 / 2 ^ 53 \<longrightarrow>
        0 \<le> randInt r 62 \<and> randInt r 62 < 62
        \<and> (of_int i \<le> r * 62 \<and> r * 62 < of_int i + 1 - 1 / 2 ^ 48 \<longrightarrow> randInt r 62 = i)
        \<and> (randInt r 62 = i \<longrightarrow> of_int i - 1 / 2 ^ 48 \<le> r * 62 \<and> r * 62 < of_int i + 1))
   \<and> length CHARS = 62 \<and> distinct CHARS \<and> list_all alnum CHARS
   \<and> (\<exists>m\<le>10. generate_until_unique st rnd 0 0
                 = Inr (candidate rnd m, Suc m, draws_after rnd (Suc m))
              \<and> (\<forall>i<m. has_code st (candidate rnd i))
              \<and> (m < 10 \<longrightarrow> \<not> has_code st (candidate rnd m)))
   \<and> ((\<forall>i\<le>10. has_code st (candidate rnd i)) \<and> \<not> truthy cc \<and> l \<noteq> [] \<and> U l = Some n \<longrightarrow>
        create_link B U rnd st \<lparr>longUrl = Some l, customCode = cc\<rparr>
          = (st, \<lparr>status = 500,
                  body = JsonError ''Failed to generate unique short_code, try again''\<rparr>))"
proof -
  assume rnd: "\<forall>k. 0 \<le> rnd k \<and> rnd k \<le> 1 - 1 / 2 ^ 53"
  have a: "CODE_REGEX_test (candidate rnd j)"
    using candidate_matches [of rnd j] rnd by blast
  have b: "candidate rnd j
       = map (\<lambda>d. CHARS ! nat (randInt (rnd (draws_after rnd j + 1 + d)) 62))
           [0..<nat (6 + \<lfloor>fl (rnd (draws_after rnd j) * 3)\<rfloor>)]"
    unfolding candidate_def using genCode_content [of rnd "draws_after rnd j"] rnd by blast
  have c: "0 \<le> r \<and> r \<le> 1 - 1 / 2 ^ 53 \<longrightarrow>
        0 \<le> randInt r 62 \<and> randInt r 62 < 62
        \<and> (of_int i \<le> r * 62 \<and> r * 62 < of_int i + 1 - 1 / 2 ^ 48 \<longrightarrow> randInt r 62 = i)
        \<and> (randInt r 62 = i \<longrightarrow> of_int i - 1 / 2 ^ 48 \<le> r * 62 \<and> r * 62 < of_int i + 1)"
  proof
    assume r: "0 \<le> r \<and> r \<le> 1 - 1 / 2 ^ 53"
    then have r1: "r < 1" by simp
    show "0 \<le> randInt r 62 \<and> randInt r 62 < 62
        \<and> (of_int i \<le> r * 62 \<and> r * 62 < of_int i + 1 - 1 / 2 ^ 48 \<longrightarrow> randInt r 62 = i)
        \<and> (randInt r 62 = i \<longrightarrow> of_int i - 1 / 2 ^ 48 \<le> r * 62 \<and> r * 62 < of_int i + 1)"
      using randInt_62_range [of r] randInt_62_interval [of r i] r r1 by blast
  qed
  have d: "length CHARS = 62 \<and> distinct CHARS \<and> list_all alnum CHARS"
    using CHARS_alnum length_CHARS by (simp add: CHARS_def)
  have e: "(\<forall>i\<le>10. has_code st (candidate rnd i)) \<and> \<not> truthy cc \<and> l \<noteq> [] \<and> U l = Some n \<longrightarrow>
        create_link B U rnd st \<lparr>longUrl = Some l, customCode = cc\<rparr>
          = (st, \<lparr>status = 500,
                  body = JsonError ''Failed to generate unique short_code, try again''\<rparr>)"
    using create_link_exhausted [of st rnd cc l U n B] by blast
  show ?thesis
    using a b c d e generate_until_unique_bounded [of st rnd] by blast
qed

theorem random_generation_is_bounded_witness:
  "CODE_REGEX_test ''AAAAAA''
   \<and> CODE_REGEX_test ''QQQQQQ''
   \<and> randInt (1 / 2) 62 = 31
   \<and> 16 - 1 / 2 ^ 48 \<le> (1162219258676257 / 2 ^ 52 * 62 :: real)
   \<and> create_link ''http://localhost:3001'' sample_URL zero_draws [sample_link ''AAAAAA'' 0]
       \<lparr>longUrl = Some ''https://example.com/page'', customCode = None\<rparr>
     = ([sample_link ''AAAAAA'' 0],
        \<lparr>status = 500,
         body = JsonError ''Failed to generate unique short_code, try again''\<rparr>)"
proof -
  have taken: "\<forall>i\<le>10. has_code [sample_link ''AAAAAA'' 0] (candidate zero_draws i)"
    by (simp add: candidate_zero_draws)
  have none: "\<not> truthy None"
    by (simp add: truthy_def)
  have u: "''https://example.com/page'' \<noteq> []
           \<and> sample_URL ''https://example.com/page'' = Some ''https://example.com/page''"
    by (simp add: sample_URL_def)
  note t = random_generation_is_bounded
    [OF zero_draws_range, where j = 0 and r = "1 / 2" and i = 31
      and st = "[sample_link ''AAAAAA'' 0]" and cc = None
      and l = "''https://example.com/page''" and U = sample_URL
      and n = "''https://example.com/page''" and B = "''http://localhost:3001''"]
  note t' = random_generation_is_bounded
    [OF rounding_draws_range, where j = 0 and r = "1162219258676257 / 2 ^ 52" and i = 16]
  have a: "CODE_REGEX_test ''AAAAAA''"
    using t unfolding candidate_zero_draws by (rule conjunct1)
  have a': "CODE_REGEX_test ''QQQQQQ''"
    using t' unfolding candidate_rounding_draws by (rule conjunct1)
  have half: "(0::real) \<le> 1 / 2 \<and> (1 / 2 :: real) \<le> 1 - 1 / 2 ^ 53
      \<and> of_int 31 \<le> (1 / 2 * 62 :: real) \<and> (1 / 2 * 62 :: real) < of_int 31 + 1 - 1 / 2 ^ 48"
    by simp
  have b: "randInt (1 / 2) 62 = 31"
    using t half by blast
  have r: "(0::real) \<le> 1162219258676257 / 2 ^ 52
      \<and> (1162219258676257 / 2 ^ 52 :: real) \<le> 1 - 1 / 2 ^ 53"
    by simp
  have "of_int 16 - 1 / 2 ^ 48 \<le> (1162219258676257 / 2 ^ 52 * 62 :: real)"
    using t' r rounding_example by blast
  then have c: "16 - 1 / 2 ^ 48 \<le> (1162219258676257 / 2 ^ 52 * 62 :: real)"
    by simp
  have d: "create_link ''http://localhost:3001'' sample_URL zero_draws [sample_link ''AAAAAA'' 0]
       \<lparr>longUrl = Some ''https://example.com/page'', customCode = None\<rparr>
     = ([sample_link ''AAAAAA'' 0],
        \<lparr>status = 500,
         body = JsonError ''Failed to generate unique short_code, try again''\<rparr>)"
    using t taken none u by blast
  show ?thesis by (intro conjI a a' b c d)
qed

section \<open>What a request does to the table\<close>

lemma redirect_store:
  "fst (redirect E st now c) = st
   \<or> fst (redirect E st now c) = map (\<lambda>r. if short_code r = c then click now r else r) st"
  by (simp add: redirect_def update_clicks_def split: list.split sum.split)

lemma create_insert_store:
  "fst (create_insert B st c u) = st
   \<or> (\<exists>row. fst (create_insert B st c u) = st @ [row] \<and> total_clicks row = 0
          \<and> last_clicked_time row = None \<and> target_url row = u)"
  by (auto simp: create_insert_def insert_link_def Let_def split: sum.split)

lemma create_link_store:
  "fst (create_link B U rnd st b) = st
   \<or> (\<exists>row. fst (create_link B U rnd st b) = st @ [row] \<and> total_clicks row = 0
          \<and> last_clicked_time row = None)"
proof (cases "create_precheck U rnd st b")
  case (Inl r)
  then show ?thesis by (simp add: create_link_def create_interleaved_def)
next
  case (Inr p)
  obtain c u where p: "p = (c, u)" by (cases p)
  have "create_link B U rnd st b = create_insert B st c u"
    by (simp add: create_link_def create_interleaved_def Inr p)
  then show ?thesis using create_insert_store [of B st c u] by auto
qed

lemma delete_link_store:
  "fst (delete_link st c) = (if pg_text c then filter (\<lambda>r. short_code r \<noteq> c) st else st)"
  by (simp add: delete_link_def delete_by_code_def)

lemma handle_http_store:
  "(case route_of D (req_verb req) (req_path req) of
      RRedirect c \<Rightarrow>
        fst (handle_http B U D E amb st req) = st
        \<or> fst (handle_http B U D E amb st req)
            = map (\<lambda>r. if short_code r = c then click (clock amb) r else r) st
    | RDelete c \<Rightarrow>
        fst (handle_http B U D E amb st req)
          = (if pg_text c then filter (\<lambda>r. short_code r \<noteq> c) st else st)
    | RCreate \<Rightarrow>
        fst (handle_http B U D E amb st req) = st
        \<or> (\<exists>row. fst (handle_http B U D E amb st req) = st @ [row] \<and> total_clicks row = 0
               \<and> last_clicked_time row = None)
    | _ \<Rightarrow> fst (handle_http B U D E amb st req) = st)"
proof (cases "route_of D (req_verb req) (req_path req)")
  case RCreate
  then show ?thesis
    using create_link_store [of B U "random amb" st "req_json req"]
    by (simp add: handle_http_def)
next
  case (RDelete c)
  then show ?thesis by (simp add: handle_http_def delete_link_store)
next
  case (RRedirect c)
  then show ?thesis
    using redirect_store [of E st "clock amb" c] by (simp add: handle_http_def)
qed (simp_all add: handle_http_def)

section \<open>Frame: what may change in an existing link\<close>

text \<open>
  Claim C9. Let a request turn the table \<open>st\<close> into \<open>st'\<close>. If it is routed to the
  redirect handler for code \<open>c\<close>, the table keeps its length and its order, every row
  keeps all fields but \<open>total_clicks\<close> and \<open>last_clicked_time\<close> (in particular its code
  and its target URL), and every row with a code other than \<open>c\<close> is unchanged. If it is
  routed to the delete handler, \<open>st'\<close> is \<open>st\<close> without the rows of that code, the rest
  unchanged: so it is for every code without a zero byte, and for every code on a table
  whose codes have no zero byte, as the codes of every table that the database holds;
  for a code with a zero byte the statement fails and \<open>st'\<close> is \<open>st\<close>. If it is routed to
  the create handler, \<open>st'\<close> is \<open>st\<close>, or \<open>st\<close> with one new row at the end. Every other
  request leaves the table as it is.
\<close>

theorem existing_links_only_clicked_or_deleted:
  "handle_http B U D E amb st req = (st', resp) \<Longrightarrow>
   (case route_of D (req_verb req) (req_path req) of
      RRedirect c \<Rightarrow>
        length st' = length st
        \<and> (\<forall>i<length st.
              st' ! i = (st ! i)\<lparr>total_clicks := total_clicks (st' ! i),
                                 last_clicked_time := last_clicked_time (st' ! i)\<rparr>
              \<and> short_code (st' ! i) = short_code (st ! i)
              \<and> target_url (st' ! i) = target_url (st ! i)
              \<and> (short_code (st ! i) \<noteq> c \<longrightarrow> st' ! i = st ! i))
    | RDelete c \<Rightarrow>
        (pg_text c \<or> list_all (\<lambda>r. pg_text (short_code r)) st \<longrightarrow>
           st' = filter (\<lambda>r. short_code r \<noteq> c) st)
        \<and> (\<not> pg_text c \<longrightarrow> st' = st)
    | RCreate \<Rightarrow> st' = st \<or> (\<exists>row. st' = st @ [row])
    | _ \<Rightarrow> st' = st)"
proof -
  assume h: "handle_http B U D E amb st req = (st', resp)"
  then have f: "fst (handle_http B U D E amb st req) = st'" by simp
  note s = handle_http_store
    [where req = req and B = B and U = U and D = D and E = E and amb = amb and st = st,
      unfolded f]
  show ?thesis
  proof (cases "route_of D (req_verb req) (req_path req)")
    case (RRedirect c)
    then have "st' = st \<or> st' = map (\<lambda>r. if short_code r = c then click (clock amb) r else r) st"
      using s by simp
    then have "length st' = length st
        \<and> (\<forall>i<length st.
              st' ! i = (st ! i)\<lparr>total_clicks := total_clicks (st' ! i),
                                 last_clicked_time := last_clicked_time (st' ! i)\<rparr>
              \<and> short_code (st' ! i) = short_code (st ! i)
              \<and> target_url (st' ! i) = target_url (st ! i)
              \<and> (short_code (st ! i) \<noteq> c \<longrightarrow> st' ! i = st ! i))"
      by (auto simp: click_def)
    then show ?thesis using RRedirect by simp
  next
    case RCreate
    then show ?thesis using s by auto
  next
    case (RDelete c)
    then have d: "st' = (if pg_text c then filter (\<lambda>r. short_code r \<noteq> c) st else st)"
      using s by simp
    have "filter (\<lambda>r. short_code r \<noteq> c) st = st"
      if "\<not> pg_text c" and "list_all (\<lambda>r. pg_text (short_code r)) st"
      using that by (auto simp: list_all_iff filter_id_conv)
    then have "(pg_text c \<or> list_all (\<lambda>r. pg_text (short_code r)) st \<longrightarrow>
           st' = filter (\<lambda>r. short_code r \<noteq> c) st)
        \<and> (\<not> pg_text c \<longrightarrow> st' = st)"
      using d by (cases "pg_text c") simp_all
    then show ?thesis using RDelete by simp
  qed (use s in simp_all)
qed

theorem existing_links_only_clicked_or_deleted_witness:
  "handle_http ''http://localhost:3001'' sample_URL sample_decode sample_encodeUrl sample_ambient
     [sample_link ''abc123'' 0, sample_link ''xyz789'' 4]
     \<lparr>req_verb = GET, req_path = [''abc123''],
      req_json = \<lparr>longUrl = None, customCode = None\<rparr>\<rparr>
     = ([\<lparr>short_code = ''abc123'', target_url = ''https://example.com/page'',
          total_clicks = 1, last_clicked_time = Some 7\<rparr>, sample_link ''xyz789'' 4],
        \<lparr>status = 302, body = Location ''https://example.com/page''\<rparr>)
   \<and> short_code ([\<lparr>short_code = ''abc123'', target_url = ''https://example.com/page'',
          total_clicks = 1, last_clicked_time = Some 7\<rparr>, sample_link ''xyz789'' 4] ! 0)
       = short_code ([sample_link ''abc123'' 0, sample_link ''xyz789'' 4] ! 0)
   \<and> [\<lparr>short_code = ''abc123'', target_url = ''https://example.com/page'',
          total_clicks = 1, last_clicked_time = Some 7\<rparr>, sample_link ''xyz789'' 4] ! 1
       = [sample_link ''abc123'' 0, sample_link ''xyz789'' 4] ! 1"
proof -
  let ?st = "[sample_link ''abc123'' 0, sample_link ''xyz789'' 4]"
  let ?st' = "[\<lparr>short_code = ''abc123'', target_url = ''https://example.com/page'',
          total_clicks = 1, last_clicked_time = Some 7\<rparr>, sample_link ''xyz789'' 4]"
  let ?req = "\<lparr>req_verb = GET, req_path = [''abc123''],
      req_json = \<lparr>longUrl = None, customCode = None\<rparr>\<rparr>"
  have r: "route_of sample_decode (req_verb ?req) (req_path ?req) = RRedirect ''abc123''"
    by (simp add: lit_def to_lower_def decode_param_def)
  have h: "handle_http ''http://localhost:3001'' sample_URL sample_decode sample_encodeUrl sample_ambient ?st ?req
     = (?st', \<lparr>status = 302, body = Location ''https://example.com/page''\<rparr>)"
    by (simp add: handle_http_def lit_def to_lower_def decode_param_def redirect_def
        select_by_code_def update_clicks_def click_def sample_link_def sample_ambient_def
        sample_encodeUrl_def pg_text_def INT4_MAX_def)
  note t = existing_links_only_clicked_or_deleted [OF h, unfolded r route.case]
  have a: "short_code (?st' ! 0) = short_code (?st ! 0)"
    using t [THEN conjunct2, THEN spec, of 0] by simp
  have b: "?st' ! 1 = ?st ! 1"
    using t [THEN conjunct2, THEN spec, of 1] by (simp add: sample_link_def)
  show ?thesis by (intro conjI h a b)
qed

section \<open>Invariant: the click counter\<close>

lemma handle_http_nonneg:
  assumes "list_all (\<lambda>r. 0 \<le> total_clicks r) st"
  shows "list_all (\<lambda>r. 0 \<le> total_clicks r) (fst (handle_http B U D E amb st req))"
proof -
  note s = handle_http_store
    [where req = req and B = B and U = U and D = D and E = E and amb = amb and st = st]
  show ?thesis
  proof (cases "route_of D (req_verb req) (req_path req)")
    case (RRedirect c)
    have "list_all (\<lambda>r. 0 \<le> total_clicks r)
            (map (\<lambda>r. if short_code r = c then click (clock amb) r else r) st)"
      unfolding list.pred_map
      by (rule list.pred_mono_strong [OF assms]) (simp add: click_def)
    then show ?thesis using s RRedirect assms by auto
  next
    case RCreate
    then show ?thesis using s assms by auto
  next
    case (RDelete c)
    then show ?thesis using s assms by (simp add: list_all_iff)
  qed (use s assms in simp_all)
qed

lemma serve_nonneg:
  "list_all (\<lambda>r. 0 \<le> total_clicks r) st \<Longrightarrow>
   list_all (\<lambda>r. 0 \<le> total_clicks r) (serve B U D E st rs)"
proof (induction rs arbitrary: st)
  case Nil
  then show ?case by simp
next
  case (Cons x rs)
  obtain amb req where x: "x = (amb, req)" by (cases x)
  show ?case
    unfolding x using Cons.IH [OF handle_http_nonneg [OF Cons.prems]] by simp
qed

text \<open>
  Claim C8. If every row of the table has a non-negative \<open>total_clicks\<close>, so has every
  row after any request. A request routed to the redirect handler keeps the rows in place
  and leaves each counter as it was or one higher; a request routed to the create handler
  leaves the table as it was or appends one row, whose counter is 0; after any other
  request (health, list, get, delete, no route) every row of the table is a row of the
  table before, unchanged. Hence no counter ever decreases, only redirects raise one, and
  in every table reached from the empty one by serving requests all counters are
  non-negative.
\<close>

theorem total_clicks_never_decrease:
  "list_all (\<lambda>r. 0 \<le> total_clicks r) st \<Longrightarrow>
   handle_http B U D E amb st req = (st', resp) \<Longrightarrow>
   list_all (\<lambda>r. 0 \<le> total_clicks r) st'
   \<and> (case route_of D (req_verb req) (req_path req) of
        RRedirect c \<Rightarrow>
          length st' = length st
          \<and> (\<forall>i<length st. total_clicks (st ! i) \<le> total_clicks (st' ! i)
                \<and> total_clicks (st' ! i) \<le> total_clicks (st ! i) + 1)
      | RCreate \<Rightarrow> st' = st \<or> (\<exists>row. st' = st @ [row] \<and> total_clicks row = 0)
      | _ \<Rightarrow> list_all (\<lambda>r'. r' \<in> set st) st')
   \<and> list_all (\<lambda>r. 0 \<le> total_clicks r) (serve B U D E [] rs)"
proof -
  assume inv: "list_all (\<lambda>r. 0 \<le> total_clicks r) st"
    and h: "handle_http B U D E amb st req = (st', resp)"
  from h have f: "fst (handle_http B U D E amb st req) = st'" by simp
  note s = handle_http_store
    [where req = req and B = B and U = U and D = D and E = E and amb = amb and st = st,
      unfolded f]
  have a: "list_all (\<lambda>r. 0 \<le> total_clicks r) st'"
    using handle_http_nonneg [OF inv, of B U D E amb req] f by simp
  have b: "(case route_of D (req_verb req) (req_path req) of
        RRedirect c \<Rightarrow>
          length st' = length st
          \<and> (\<forall>i<length st. total_clicks (st ! i) \<le> total_clicks (st' ! i)
                \<and> total_clicks (st' ! i) \<le> total_clicks (st ! i) + 1)
      | RCreate \<Rightarrow> st' = st \<or> (\<exists>row. st' = st @ [row] \<and> total_clicks row = 0)
      | _ \<Rightarrow> list_all (\<lambda>r'. r' \<in> set st) st')"
  proof (cases "route_of D (req_verb req) (req_path req)")
    case (RRedirect c)
    then have "st' = st \<or> st' = map (\<lambda>r. if short_code r = c then click (clock amb) r else r) st"
      using s by simp
    then have "length st' = length st
          \<and> (\<forall>i<length st. total_clicks (st ! i) \<le> total_clicks (st' ! i)
                \<and> total_clicks (st' ! i) \<le> total_clicks (st ! i) + 1)"
      by (auto simp: click_def)
    then show ?thesis using RRedirect by simp
  next
    case RCreate
    then show ?thesis using s by auto
  qed (use s in \<open>simp_all add: list_all_iff\<close>)
  have c: "list_all (\<lambda>r. 0 \<le> total_clicks r) (serve B U D E [] rs)"
    by (rule serve_nonneg) simp
  show ?thesis by (intro conjI a b c)
qed

theorem total_clicks_never_decrease_witness:
  "handle_http ''http://localhost:3001'' sample_URL sample_decode sample_encodeUrl sample_ambient
     [sample_link ''abc123'' 0, sample_link ''xyz789'' 4]
     \<lparr>req_verb = GET, req_path = [''abc123''],
      req_json = \<lparr>longUrl = None, customCode = None\<rparr>\<rparr>
     = ([\<lparr>short_code = ''abc123'', target_url = ''https://example.com/page'',
          total_clicks = 1, last_clicked_time = Some 7\<rparr>, sample_link ''xyz789'' 4],
        \<lparr>status = 302, body = Location ''https://example.com/page''\<rparr>)
   \<and> total_clicks ([sample_link ''abc123'' 0, sample_link ''xyz789'' 4] ! 0)
       \<le> total_clicks ([\<lparr>short_code = ''abc123'', target_url = ''https://example.com/page'',
            total_clicks = 1, last_clicked_time = Some 7\<rparr>, sample_link ''xyz789'' 4] ! 0)"
proof -
  let ?st = "[sample_link ''abc123'' 0, sample_link ''xyz789'' 4]"
  let ?st' = "[\<lparr>short_code = ''abc123'', target_url = ''https://example.com/page'',
          total_clicks = 1, last_clicked_time = Some 7\<rparr>, sample_link ''xyz789'' 4]"
  let ?req = "\<lparr>req_verb = GET, req_path = [''abc123''],
      req_json = \<lparr>longUrl = None, customCode = None\<rparr>\<rparr>"
  have i: "list_all (\<lambda>r. 0 \<le> total_clicks r) ?st"
    by (simp add: sample_link_def)
  have r: "route_of sample_decode (req_verb ?req) (req_path ?req) = RRedirect ''abc123''"
    by (simp add: lit_def to_lower_def decode_param_def)
  have h: "handle_http ''http://localhost:3001'' sample_URL sample_decode sample_encodeUrl sample_ambient ?st ?req
     = (?st', \<lparr>status = 302, body = Location ''https://example.com/page''\<rparr>)"
    by (simp add: handle_http_def lit_def to_lower_def decode_param_def redirect_def
        select_by_code_def update_clicks_def click_def sample_link_def sample_ambient_def
        sample_encodeUrl_def pg_text_def INT4_MAX_def)
  note t = total_clicks_never_decrease [OF i h, unfolded r route.case]
  have a: "total_clicks (?st ! 0) \<le> total_clicks (?st' ! 0)"
    using t [THEN conjunct2, THEN conjunct1, THEN conjunct2, THEN spec, of 0] by simp
  show ?thesis by (intro conjI h a)
qed

end
